theory Spec2Isabelle
  imports Complex_Main
begin

section \<open>Data model of the waypoint updater\<close>

text \<open>
  The node of \<^verbatim>\<open>waypoint_updater.py\<close> keeps its inputs as attributes of \<^verbatim>\<open>self\<close> and
  rebuilds \<^verbatim>\<open>self.final_waypoints\<close> on every tick. Python floats are read as real
  numbers (rounding, infinities and NaN are outside this development). Exceptions are
  values of the type \<open>error\<close>.
\<close>

datatype error = AttributeError | IndexError | ZeroDivisionError | TypeError | ValueError

record Point =
  p_x :: real
  p_y :: real
  p_z :: real

record Quaternion =
  q_x :: real
  q_y :: real
  q_z :: real
  q_w :: real

record Pose =
  position :: Point
  orientation :: Quaternion

text \<open>
  A \<^verbatim>\<open>Waypoint\<close> message object: \<open>pose\<close> is \<^verbatim>\<open>wp.pose.pose\<close> and \<open>linear_x\<close> is
  \<^verbatim>\<open>wp.twist.twist.linear.x\<close>. Waypoint objects live in a store (a list of cells, an
  object reference being an index into it); a list of waypoints is a list of references.
  No statement of the program assigns to a field of a \<^verbatim>\<open>Pose\<close> object, so poses are
  kept as values inside the cell.
\<close>

record Waypoint =
  pose :: Pose
  linear_x :: real

type_synonym ref = nat

text \<open>
  The attributes of \<^verbatim>\<open>self\<close>. \<open>current_pose\<close>, \<open>base_waypoints\<close> and
  \<open>current_velocity\<close> are created by the callbacks only, so \<open>None\<close> stands for an
  attribute that does not exist yet (\<^verbatim>\<open>hasattr\<close> is false); \<open>final_waypoints\<close> and
  \<open>breaking_acceleration\<close> start as Python's \<^verbatim>\<open>None\<close>.
\<close>

record node =
  current_pose :: "Pose option"
  base_waypoints :: "ref list option"
  current_velocity :: "real option"
  traffic_waypoint :: int
  state :: int
  breaking_acceleration :: "real option"
  breaking_acceleration_limit :: real
  final_waypoints :: "ref list option"
  heap :: "Waypoint list"

definition LOOKAHEAD_WPS :: int where
  "LOOKAHEAD_WPS = 200"

text \<open>The four subscriber callbacks.\<close>

definition pose_cb :: "node \<Rightarrow> Pose \<Rightarrow> node" where
  "pose_cb s msg = s\<lparr>current_pose := Some msg\<rparr>"

definition waypoints_cb :: "node \<Rightarrow> ref list \<Rightarrow> node" where
  "waypoints_cb s waypoints = s\<lparr>base_waypoints := Some waypoints\<rparr>"

definition traffic_cb :: "node \<Rightarrow> int \<Rightarrow> node" where
  "traffic_cb s msg = s\<lparr>traffic_waypoint := msg\<rparr>"

definition current_velocity_cb :: "node \<Rightarrow> real \<Rightarrow> node" where
  "current_velocity_cb s msg = s\<lparr>current_velocity := Some msg\<rparr>"

definition dl :: "Point \<Rightarrow> Point \<Rightarrow> real" where
  "dl a b = sqrt ((p_x a - p_x b)\<^sup>2 + (p_y a - p_y b)\<^sup>2 + (p_z a - p_z b)\<^sup>2)"

text \<open>
  List subscription \<^verbatim>\<open>xs[i]\<close> as Python evaluates it: indices from \<open>- len\<close> up to
  \<open>- 1\<close> address the list from its end, and anything outside \<open>[- len, len)\<close> is an
  \<^verbatim>\<open>IndexError\<close>.
\<close>

definition py_get :: "'a list \<Rightarrow> int \<Rightarrow> error + 'a" where
  "py_get xs i =
     (if 0 \<le> i \<and> i < int (length xs) then Inr (xs ! nat i)
      else if i < 0 \<and> - int (length xs) \<le> i then Inr (xs ! nat (int (length xs) + i))
      else Inl IndexError)"

text \<open>Reading an attribute of \<^verbatim>\<open>self\<close> that no callback has created yet.\<close>

definition attr :: "'a option \<Rightarrow> error + 'a" where
  "attr v = (case v of None \<Rightarrow> Inl AttributeError | Some a \<Rightarrow> Inr a)"

section \<open>Arc distance along the route\<close>

text \<open>
  \<^verbatim>\<open>distance(waypoints, wp1, wp2)\<close>: the loop variable runs over
  \<^verbatim>\<open>range(wp1, wp2 + 1)\<close>, and \<^verbatim>\<open>wp1\<close> is reassigned to the previous index.
  The accumulator \<^verbatim>\<open>dist\<close> is written \<open>d\<close>.
\<close>

fun distance_loop :: "Waypoint list \<Rightarrow> ref list \<Rightarrow> int \<Rightarrow> int list \<Rightarrow> real \<Rightarrow> error + real" where
  "distance_loop h waypoints wp1 [] d = Inr d"
| "distance_loop h waypoints wp1 (i # is) d =
     (case py_get waypoints wp1 of
        Inl e \<Rightarrow> Inl e
      | Inr a \<Rightarrow>
          (case py_get waypoints i of
             Inl e \<Rightarrow> Inl e
           | Inr b \<Rightarrow>
               distance_loop h waypoints i is
                 (d + dl (position (pose (h ! a))) (position (pose (h ! b))))))"

definition distance :: "Waypoint list \<Rightarrow> ref list \<Rightarrow> int \<Rightarrow> int \<Rightarrow> error + real" where
  "distance h waypoints wp1 wp2 = distance_loop h waypoints wp1 [wp1..wp2] 0"

section \<open>The stop resolver\<close>

text \<open>
  The local \<^verbatim>\<open>decel = lambda x: abs(self.current_velocity**2 / (2*x))\<close>; the velocity
  attribute is read when the lambda is called.
\<close>

definition decel :: "node \<Rightarrow> real \<Rightarrow> error + real" where
  "decel s x =
     (case attr (current_velocity s) of
        Inl e \<Rightarrow> Inl e
      | Inr v \<Rightarrow> if 2 * x = 0 then Inl ZeroDivisionError else Inr \<bar>v\<^sup>2 / (2 * x)\<bar>)"

definition resolve_traffic_lights :: "node \<Rightarrow> int \<Rightarrow> error + node" where
  "resolve_traffic_lights s next_wp =
     (if state s = 0 then
        (if traffic_waypoint s \<noteq> - 1 then
           (case attr (base_waypoints s) of
              Inl e \<Rightarrow> Inl e
            | Inr waypoints \<Rightarrow>
                (case distance (heap s) waypoints next_wp (traffic_waypoint s) of
                   Inl e \<Rightarrow> Inl e
                 | Inr traffic_light_distance \<Rightarrow>
                     (case decel s (breaking_acceleration_limit s) of
                        Inl e \<Rightarrow> Inl e
                      | Inr min_distance \<Rightarrow>
                          if traffic_light_distance > min_distance then
                            (case decel s traffic_light_distance of
                               Inl e \<Rightarrow> Inl e
                             | Inr a \<Rightarrow> Inr (s\<lparr>state := 1, breaking_acceleration := Some a\<rparr>))
                          else Inr (s\<lparr>state := 0\<rparr>))))
         else Inr (s\<lparr>state := 0\<rparr>))
      else if traffic_waypoint s = - 1 then Inr (s\<lparr>state := 0\<rparr>)
      else Inr s)"

section \<open>The trajectory builder\<close>

text \<open>
  The loop body that copies a route waypoint: \<^verbatim>\<open>tmp = Waypoint()\<close> allocates a new
  cell at the end of the store, its pose and speed are taken from
  \<^verbatim>\<open>waypoints[i % len(waypoints)]\<close>, and the reference is appended to
  \<^verbatim>\<open>final_waypoints\<close>. It is the body of the loop of the Driving case and of the first
  loop of the Braking case.
\<close>

fun copy_loop :: "ref list \<Rightarrow> int list \<Rightarrow> Waypoint list \<Rightarrow> ref list
    \<Rightarrow> error + Waypoint list \<times> ref list" where
  "copy_loop waypoints [] h fw = Inr (h, fw)"
| "copy_loop waypoints (i # is) h fw =
     (if length waypoints = 0 then Inl ZeroDivisionError
      else
        let j = nat (i mod int (length waypoints));
            src = h ! (waypoints ! j);
            tmp = length h
        in copy_loop waypoints is
             (h @ [\<lparr>pose = pose src, linear_x = linear_x src\<rparr>]) (fw @ [tmp]))"

text \<open>The loop after the traffic light: the same copy with the speed set to \<open>0.0\<close>.\<close>

fun stop_loop :: "ref list \<Rightarrow> int list \<Rightarrow> Waypoint list \<Rightarrow> ref list
    \<Rightarrow> error + Waypoint list \<times> ref list" where
  "stop_loop waypoints [] h fw = Inr (h, fw)"
| "stop_loop waypoints (i # is) h fw =
     (if length waypoints = 0 then Inl ZeroDivisionError
      else
        let j = nat (i mod int (length waypoints));
            src = h ! (waypoints ! j);
            tmp = length h
        in stop_loop waypoints is
             (h @ [\<lparr>pose = pose src, linear_x = 0\<rparr>]) (fw @ [tmp]))"

text \<open>
  The deceleration loop over \<^verbatim>\<open>final_waypoints[:target_wp][::-1]\<close>. Multiplying by a
  \<^verbatim>\<open>breaking_acceleration\<close> that is still \<^verbatim>\<open>None\<close> raises \<^verbatim>\<open>TypeError\<close>, and
  \<^verbatim>\<open>math.sqrt\<close> of a negative number raises \<^verbatim>\<open>ValueError\<close>. The source's \<^verbatim>\<open>last\<close> and
  \<^verbatim>\<open>dist\<close> are written \<open>lst\<close> and \<open>dst\<close>, and \<open>acc\<close> is \<^verbatim>\<open>self.breaking_acceleration\<close>.
\<close>

fun smooth_loop :: "real option \<Rightarrow> ref \<Rightarrow> ref list \<Rightarrow> Waypoint list
    \<Rightarrow> error + Waypoint list" where
  "smooth_loop acc lst [] h = Inr h"
| "smooth_loop acc lst (wp # rest) h =
     (let x = p_x (position (pose (h ! wp))) - p_x (position (pose (h ! lst)));
          y = p_y (position (pose (h ! wp))) - p_y (position (pose (h ! lst)));
          z = p_z (position (pose (h ! wp))) - p_z (position (pose (h ! lst)));
          dst = sqrt (x * x + y * y + z * z)
      in case acc of
           None \<Rightarrow> Inl TypeError
         | Some a \<Rightarrow>
             if 2 * a * max 0 (dst - 5) < 0 then Inl ValueError
             else
               let vel = sqrt (2 * a * max 0 (dst - 5));
                   vel = (if vel < 1 then 0 else vel)
               in smooth_loop acc lst rest
                    (h[wp := (h ! wp)\<lparr>linear_x := min vel (linear_x (h ! wp))\<rparr>]))"

definition calculate_final_waypoints :: "node \<Rightarrow> int \<Rightarrow> error + node" where
  "calculate_final_waypoints s start_wp =
     (if state s = 0 then
        (case attr (base_waypoints s) of
           Inl e \<Rightarrow> Inl e
         | Inr waypoints \<Rightarrow>
             (case copy_loop waypoints [start_wp..start_wp + LOOKAHEAD_WPS - 1] (heap s) [] of
                Inl e \<Rightarrow> Inl e
              | Inr (h, fw) \<Rightarrow> Inr (s\<lparr>final_waypoints := Some fw, heap := h\<rparr>)))
      else if state s = 1 then
        (case attr (base_waypoints s) of
           Inl e \<Rightarrow> Inl e
         | Inr waypoints \<Rightarrow>
             (case copy_loop waypoints [start_wp..traffic_waypoint s - 1] (heap s) [] of
                Inl e \<Rightarrow> Inl e
              | Inr (h1, fw1) \<Rightarrow>
                  let target_wp = length fw1;
                      i_max = max (start_wp + LOOKAHEAD_WPS) (traffic_waypoint s + 1)
                  in (case stop_loop waypoints [traffic_waypoint s..i_max - 1] h1 fw1 of
                        Inl e \<Rightarrow> Inl e
                      | Inr (h2, fw2) \<Rightarrow>
                          (case py_get fw2 (int target_wp) of
                             Inl e \<Rightarrow> Inl e
                           | Inr lst \<Rightarrow>
                               (case smooth_loop (breaking_acceleration s) lst
                                       (rev (take target_wp fw2))
                                       (h2[lst := (h2 ! lst)\<lparr>linear_x := 0\<rparr>]) of
                                  Inl e \<Rightarrow> Inl e
                                | Inr h3 \<Rightarrow>
                                    Inr (s\<lparr>final_waypoints := Some fw2, heap := h3\<rparr>))))))
      else Inr (s\<lparr>final_waypoints := Some []\<rparr>))"

section \<open>The next-waypoint locator\<close>

text \<open>
  \<^verbatim>\<open>get_closest_waypoint\<close>: \<open>min_dist = None\<close> stands for \<^verbatim>\<open>float('inf')\<close>, below which
  every distance lies. The list argument is the part of the route still to scan and
  \<open>i\<close> the index of its head.
\<close>

fun closest_loop :: "node \<Rightarrow> ref list \<Rightarrow> nat \<Rightarrow> real option \<Rightarrow> nat \<Rightarrow> error + nat" where
  "closest_loop s [] i min_dist wp = Inr wp"
| "closest_loop s (a # rest) i min_dist wp =
     (case attr (current_pose s) of
        Inl e \<Rightarrow> Inl e
      | Inr cp \<Rightarrow>
          let d = dl (position cp) (position (pose (heap s ! a)))
          in if (case min_dist of None \<Rightarrow> True | Some m \<Rightarrow> d < m)
             then closest_loop s rest (i + 1) (Some d) i
             else closest_loop s rest (i + 1) min_dist wp)"

definition get_closest_waypoint :: "node \<Rightarrow> error + nat" where
  "get_closest_waypoint s =
     (case attr (base_waypoints s) of
        Inl e \<Rightarrow> Inl e
      | Inr waypoints \<Rightarrow> closest_loop s waypoints 0 None 0)"

text \<open>\<^verbatim>\<open>math.atan2(y, x)\<close> on the reals: the angle of the point \<open>(x, y)\<close> in \<open>(- pi, pi]\<close>.\<close>

definition atan2 :: "real \<Rightarrow> real \<Rightarrow> real" where
  "atan2 y x =
     (if 0 < x then arctan (y / x)
      else if x < 0 then (if 0 \<le> y then arctan (y / x) + pi else arctan (y / x) - pi)
      else if 0 < y then pi / 2
      else if y < 0 then - (pi / 2)
      else 0)"

text \<open>
  \<^verbatim>\<open>get_next_waypoint\<close>. The yaw angle comes from
  \<^verbatim>\<open>tf.transformations.euler_from_quaternion(...)[-1]\<close>, a library outside the
  repository: it is the parameter \<open>yaw\<close>.
\<close>

definition get_next_waypoint :: "(Quaternion \<Rightarrow> real) \<Rightarrow> node \<Rightarrow> error + int" where
  "get_next_waypoint yaw s =
     (case get_closest_waypoint s of
        Inl e \<Rightarrow> Inl e
      | Inr next_wp \<Rightarrow>
          (case attr (current_pose s) of
             Inl e \<Rightarrow> Inl e
           | Inr cp \<Rightarrow>
               (case attr (base_waypoints s) of
                  Inl e \<Rightarrow> Inl e
                | Inr waypoints \<Rightarrow>
                    (case py_get waypoints (int next_wp) of
                       Inl e \<Rightarrow> Inl e
                     | Inr a \<Rightarrow>
                         let next_pose_position = position (pose (heap s ! a));
                             cur_pose_position = position cp;
                             cur_pose_orient = orientation cp;
                             heading = atan2 (p_y next_pose_position - p_y cur_pose_position)
                                             (p_x next_pose_position - p_x cur_pose_position);
                             theta = yaw cur_pose_orient;
                             angle = \<bar>theta - heading\<bar>
                         in Inr (if angle \<le> pi / 4 then int next_wp else int next_wp + 1)))))"

section \<open>The tick\<close>

text \<open>
  \<^verbatim>\<open>update\<close> returns the new node and what was handed to the publisher: \<open>None\<close> when
  the tick returned early, otherwise the waypoints of the message, the cells behind
  \<^verbatim>\<open>self.final_waypoints[:LOOKAHEAD_WPS]\<close>. The time stamp and the frame label of the
  message are not modelled.
\<close>

definition update :: "(Quaternion \<Rightarrow> real) \<Rightarrow> node \<Rightarrow> error + node \<times> Waypoint list option" where
  "update yaw s =
     (if \<not> (current_pose s \<noteq> None \<and> base_waypoints s \<noteq> None) then Inr (s, None)
      else
        (case get_next_waypoint yaw s of
           Inl e \<Rightarrow> Inl e
         | Inr next_wp \<Rightarrow>
             (case resolve_traffic_lights s next_wp of
                Inl e \<Rightarrow> Inl e
              | Inr s1 \<Rightarrow>
                  (case calculate_final_waypoints s1 next_wp of
                     Inl e \<Rightarrow> Inl e
                   | Inr s2 \<Rightarrow>
                       (case final_waypoints s2 of
                          None \<Rightarrow> Inl TypeError
                        | Some fw \<Rightarrow>
                            Inr (s2, Some (map (\<lambda>a. heap s2 ! a)
                                            (take (nat LOOKAHEAD_WPS) fw))))))))"

section \<open>Notions of the specification\<close>

text \<open>
  The position of the route waypoint with index \<open>i\<close>, and the arc distance of the
  specification: the sum of the distances between consecutive route waypoints from
  index \<open>wp1\<close> to index \<open>wp2\<close>.
\<close>

definition route_position :: "Waypoint list \<Rightarrow> ref list \<Rightarrow> int \<Rightarrow> Point" where
  "route_position h waypoints i = position (pose (h ! (waypoints ! nat i)))"

definition arc_distance :: "Waypoint list \<Rightarrow> ref list \<Rightarrow> int \<Rightarrow> int \<Rightarrow> real" where
  "arc_distance h waypoints wp1 wp2 =
     (\<Sum>i\<leftarrow>[wp1..wp2 - 1]. dl (route_position h waypoints i) (route_position h waypoints (i + 1)))"

text \<open>
  The closest waypoint of the specification: an index of the route whose waypoint is
  at minimum distance from \<open>p\<close>, the lowest such index.
\<close>

definition is_closest :: "Waypoint list \<Rightarrow> Point \<Rightarrow> ref list \<Rightarrow> nat \<Rightarrow> bool" where
  "is_closest h p waypoints c \<longleftrightarrow>
     c < length waypoints
     \<and> (\<forall>j<length waypoints.
           dl p (position (pose (h ! (waypoints ! c)))) \<le> dl p (position (pose (h ! (waypoints ! j)))))
     \<and> (\<forall>j<c.
           dl p (position (pose (h ! (waypoints ! c)))) < dl p (position (pose (h ! (waypoints ! j)))))"

text \<open>
  The bearing from the point \<open>a\<close> to the point \<open>b\<close>, and the absolute angular
  difference of the specification: the angle, between \<open>0\<close> and \<open>pi\<close>, between the
  directions given by two angles.
\<close>

definition bearing :: "Point \<Rightarrow> Point \<Rightarrow> real" where
  "bearing a b = atan2 (p_y b - p_y a) (p_x b - p_x a)"

definition angular_difference :: "real \<Rightarrow> real \<Rightarrow> real" where
  "angular_difference a b = arccos (cos (a - b))"

text \<open>
  Every reference of the route points to an allocated cell of the store (Python has no
  dangling references).
\<close>

definition heap_ok :: "Waypoint list \<Rightarrow> ref list \<Rightarrow> bool" where
  "heap_ok h waypoints \<longleftrightarrow> (\<forall>a\<in>set waypoints. a < length h)"

text \<open>The cell of the route waypoint \<^verbatim>\<open>waypoints[i % len(waypoints)]\<close>.\<close>

definition route_cell :: "Waypoint list \<Rightarrow> ref list \<Rightarrow> int \<Rightarrow> Waypoint" where
  "route_cell h waypoints i = h ! (waypoints ! nat (i mod int (length waypoints)))"

text \<open>
  The speed of the specification's backward smoothing pass for an entry \<open>w\<close>: the
  candidate \<open>sqrt (2 * A * max 0 (dist - 5))\<close>, snapped to \<open>0\<close> below \<open>1\<close>, capped by the
  entry's own speed.
\<close>

definition brake_speed :: "real \<Rightarrow> Point \<Rightarrow> Waypoint \<Rightarrow> real" where
  "brake_speed a stop_position w =
     (let candidate = sqrt (2 * a * max 0 (dl (position (pose w)) stop_position - 5));
          candidate = (if candidate < 1 then 0 else candidate)
      in min candidate (linear_x w))"

text \<open>The trajectory window: the cells behind \<^verbatim>\<open>self.final_waypoints\<close>.\<close>

definition window :: "node \<Rightarrow> Waypoint list" where
  "window s = (case final_waypoints s of None \<Rightarrow> [] | Some fw \<Rightarrow> map (\<lambda>a. heap s ! a) fw)"

text \<open>
  Two conditions on a node at the start of a tick. \<open>acc_ok\<close>: a Braking node carries
  a deceleration that is not negative, which is what the resolver records.
  \<open>signal_ok\<close>: when a Driving node sees a stop signal, the speed has been received,
  the deceleration limit is not zero and the stop index lies below the route length.
\<close>

definition acc_ok :: "node \<Rightarrow> bool" where
  "acc_ok s \<longleftrightarrow>
     (state s = 1 \<longrightarrow> (case breaking_acceleration s of None \<Rightarrow> False | Some a \<Rightarrow> 0 \<le> a))"

definition signal_ok :: "node \<Rightarrow> bool" where
  "signal_ok s \<longleftrightarrow>
     (state s = 0 \<and> traffic_waypoint s \<noteq> - 1 \<longrightarrow>
        current_velocity s \<noteq> None \<and> breaking_acceleration_limit s \<noteq> 0
        \<and> (case base_waypoints s of
             None \<Rightarrow> False
           | Some ws \<Rightarrow> traffic_waypoint s < int (length ws)))"

section \<open>A small route\<close>

text \<open>
  Three waypoints on the x axis, ten units apart, each with nominal speed 10; the
  vehicle stands at the first one, drives at speed 10 and the deceleration limit is
  the default \<open>- 5\<close>.
\<close>

definition wp_at :: "real \<Rightarrow> real \<Rightarrow> Waypoint" where
  "wp_at x v =
     \<lparr>pose = \<lparr>position = \<lparr>p_x = x, p_y = 0, p_z = 0\<rparr>,
              orientation = \<lparr>q_x = 0, q_y = 0, q_z = 0, q_w = 1\<rparr>\<rparr>,
      linear_x = v\<rparr>"

definition demo_node :: node where
  "demo_node =
     \<lparr>current_pose = Some (pose (wp_at 0 0)),
      base_waypoints = Some [0, 1, 2],
      current_velocity = Some 10,
      traffic_waypoint = 2,
      state = 0,
      breaking_acceleration = None,
      breaking_acceleration_limit = - 5,
      final_waypoints = None,
      heap = [wp_at 0 10, wp_at 10 10, wp_at 20 10]\<rparr>"

text \<open>The same node while braking for the stop at index 2 with deceleration \<open>5 / 2\<close>.\<close>

definition braking_node :: node where
  "braking_node = demo_node\<lparr>state := 1, breaking_acceleration := Some (5 / 2)\<rparr>"

text \<open>
  The node before any speed message has arrived and with no stop signal, and the node
  whose route snapshot is empty.
\<close>

definition no_speed_node :: node where
  "no_speed_node = demo_node\<lparr>current_velocity := None, traffic_waypoint := - 1\<rparr>"

definition empty_route_node :: node where
  "empty_route_node = demo_node\<lparr>base_waypoints := Some []\<rparr>"

text \<open>
  The yaw of a unit quaternion (the last Euler angle about the static axes x, y, z),
  for the examples; the orientation \<open>(0, 0, 1, 0)\<close> is the half turn about the z axis,
  yaw \<open>pi\<close>.
\<close>

definition euler_yaw :: "Quaternion \<Rightarrow> real" where
  "euler_yaw q =
     atan2 (2 * (q_w q * q_z q + q_x q * q_y q)) (1 - 2 * ((q_y q)\<^sup>2 + (q_z q)\<^sup>2))"

text \<open>
  A vehicle at the origin heading west, and a route of two waypoints west of it, the
  first one a thousandth of a unit to the south of the x axis.
\<close>

definition wp_xy :: "real \<Rightarrow> real \<Rightarrow> real \<Rightarrow> Waypoint" where
  "wp_xy x y v =
     \<lparr>pose = \<lparr>position = \<lparr>p_x = x, p_y = y, p_z = 0\<rparr>,
              orientation = \<lparr>q_x = 0, q_y = 0, q_z = 1, q_w = 0\<rparr>\<rparr>,
      linear_x = v\<rparr>"

definition west_node :: node where
  "west_node =
     \<lparr>current_pose = Some (pose (wp_xy 0 0 0)),
      base_waypoints = Some [0, 1],
      current_velocity = Some 10,
      traffic_waypoint = - 1,
      state = 0,
      breaking_acceleration = None,
      breaking_acceleration_limit = - 5,
      final_waypoints = None,
      heap = [wp_xy (- 1) (- (1 / 1000)) 10, wp_xy (- 11) (- (1 / 1000)) 10]\<rparr>"

text \<open>A heading function for the examples: every orientation has yaw \<open>0\<close>.\<close>

definition flat_yaw :: "Quaternion \<Rightarrow> real" where
  "flat_yaw q = 0"

section \<open>Properties\<close>

subsection \<open>Distances\<close>

lemma dl_self: "dl a a = 0"
  by (simp add: dl_def)

lemma dl_nonneg: "0 \<le> dl a b"
  by (simp add: dl_def)

lemma py_get_in_range:
  "0 \<le> i \<Longrightarrow> i < int (length xs) \<Longrightarrow> py_get xs i = Inr (xs ! nat i)"
  by (simp add: py_get_def)

lemma distance_loop_upto:
  "0 \<le> p \<Longrightarrow> p < int (length ws) \<Longrightarrow> p \<le> a \<Longrightarrow> b < int (length ws) \<Longrightarrow>
   distance_loop h ws p [a..b] d =
     Inr (if a \<le> b
          then d + dl (route_position h ws p) (route_position h ws a) + arc_distance h ws a b
          else d)"
proof (induction "nat (b + 1 - a)" arbitrary: a p d)
  case 0
  then show ?case by simp
next
  case (Suc n)
  then have ab: "a \<le> b" by linarith
  have up: "[a..b] = a # [a + 1..b]" using ab by (simp add: upto_rec1)
  have n: "n = nat (b + 1 - (a + 1))" using Suc.hyps(2) by linarith
  have ih: "distance_loop h ws a [a + 1..b] d' =
     Inr (if a + 1 \<le> b
          then d' + dl (route_position h ws a) (route_position h ws (a + 1)) + arc_distance h ws (a + 1) b
          else d')" for d'
    using Suc.hyps(1)[OF n, of a d'] Suc.prems ab by simp
  have ga: "py_get ws a = Inr (ws ! nat a)"
    using Suc.prems ab by (intro py_get_in_range) auto
  have gp: "py_get ws p = Inr (ws ! nat p)"
    using Suc.prems by (intro py_get_in_range) auto
  show ?case
  proof (cases "a + 1 \<le> b")
    case True
    have "[a..b - 1] = a # [a + 1..b - 1]" using True by (simp add: upto_rec1)
    then have "arc_distance h ws a b =
       dl (route_position h ws a) (route_position h ws (a + 1)) + arc_distance h ws (a + 1) b"
      by (simp add: arc_distance_def)
    then show ?thesis using True ab
      by (simp add: up ga gp ih route_position_def)
  next
    case False
    have e1: "[a + 1..b] = []" and e2: "[a..b - 1] = []" using False by simp_all
    show ?thesis using ab
      by (simp add: up ga gp e1 e2 route_position_def arc_distance_def)
  qed
qed

lemma distance_arc:
  assumes "0 \<le> wp1" "wp2 < int (length ws)"
  shows "distance h ws wp1 wp2 = Inr (arc_distance h ws wp1 wp2)"
proof (cases "wp1 \<le> wp2")
  case True
  then show ?thesis
    using distance_loop_upto[of wp1 ws wp1 wp2 h 0] assms
    by (simp add: distance_def dl_self)
next
  case False
  then show ?thesis by (simp add: distance_def arc_distance_def)
qed

lemma arc_distance_nonneg: "0 \<le> arc_distance h ws a b"
  unfolding arc_distance_def by (rule sum_list_nonneg) (auto simp: dl_nonneg)

lemma arc_distance_behind: "b \<le> a \<Longrightarrow> arc_distance h ws a b = 0"
  by (simp add: arc_distance_def)

subsection \<open>The resolver\<close>

text \<open>
  C1. A tick in the Driving state with a stop signal at a route index: with \<open>D\<close> the
  arc distance from the tracked index \<open>t\<close> to the stop index and
  \<open>M = speed\<^sup>2 / (2 * \<bar>decel_limit\<bar>)\<close>, the resolver switches to Braking and records the
  deceleration \<open>speed\<^sup>2 / (2 * D)\<close> when \<open>D > M\<close>, and returns the node unchanged (still
  Driving, nothing recorded) when \<open>D \<le> M\<close>. The speed has been received, the limit is
  not zero, the tracked index is not negative and the stop index lies below the route
  length.
\<close>

theorem resolve_stop_signal:
  assumes "state s = 0" "traffic_waypoint s \<noteq> - 1"
    and "base_waypoints s = Some ws" "current_velocity s = Some v"
    and "breaking_acceleration_limit s \<noteq> 0"
    and "0 \<le> t" "traffic_waypoint s < int (length ws)"
  shows "let D = arc_distance (heap s) ws t (traffic_waypoint s);
             M = v\<^sup>2 / (2 * \<bar>breaking_acceleration_limit s\<bar>)
         in (D > M \<longrightarrow> resolve_traffic_lights s t
                = Inr (s\<lparr>state := 1, breaking_acceleration := Some (v\<^sup>2 / (2 * D))\<rparr>))
          \<and> (D \<le> M \<longrightarrow> resolve_traffic_lights s t = Inr s)"
proof -
  let ?D = "arc_distance (heap s) ws t (traffic_waypoint s)"
  let ?M = "v\<^sup>2 / (2 * \<bar>breaking_acceleration_limit s\<bar>)"
  have d: "distance (heap s) ws t (traffic_waypoint s) = Inr ?D"
    using assms by (intro distance_arc) auto
  have m: "decel s (breaking_acceleration_limit s) = Inr ?M"
    using assms by (simp add: decel_def attr_def abs_mult)
  have M0: "0 \<le> ?M" by simp
  have a: "?D > ?M \<Longrightarrow> decel s ?D = Inr (v\<^sup>2 / (2 * ?D))"
  proof -
    assume "?D > ?M"
    then have "0 < ?D" using M0 by linarith
    then show ?thesis using assms by (simp add: decel_def attr_def)
  qed
  have s0: "s\<lparr>state := 0\<rparr> = s" using assms(1) by simp
  show ?thesis
    using assms(1,2,3) d m a s0
    by (auto simp: resolve_traffic_lights_def attr_def Let_def)
qed


text \<open>
  C4. A tick whose stop signal is the sentinel \<open>- 1\<close> leaves the resolver in the
  Driving state (\<open>state = 0\<close>), whatever the state was before and whichever index is
  tracked; no other attribute changes and no exception is raised.
\<close>

theorem resolve_no_signal_drives:
  "resolve_traffic_lights (s\<lparr>traffic_waypoint := - 1\<rparr>) next_wp
     = Inr (s\<lparr>traffic_waypoint := - 1, state := 0\<rparr>)"
  by (simp add: resolve_traffic_lights_def)

lemma dl_on_axis:
  "p_y a = p_y b \<Longrightarrow> p_z a = p_z b \<Longrightarrow> dl a b = \<bar>p_x a - p_x b\<bar>"
  by (simp add: dl_def)

lemma demo_arc_2: "arc_distance (heap demo_node) [0, 1, 2] 0 2 = 20"
proof -
  have u: "[0..(1::int)] = [0, 1]" by (simp add: upto_rec1)
  show ?thesis
    by (simp add: arc_distance_def u route_position_def demo_node_def wp_at_def dl_on_axis)
qed

lemma demo_arc_1: "arc_distance (heap demo_node) [0, 1, 2] 0 1 = 10"
proof -
  have u: "[0..(0::int)] = [0]" by (simp add: upto_rec1)
  show ?thesis
    by (simp add: arc_distance_def u route_position_def demo_node_def wp_at_def dl_on_axis)
qed

theorem resolve_stop_signal_witness:
  "resolve_traffic_lights demo_node 0
     = Inr (demo_node\<lparr>state := 1, breaking_acceleration := Some (5 / 2)\<rparr>)
   \<and> resolve_traffic_lights (demo_node\<lparr>traffic_waypoint := 1\<rparr>) 0
     = Inr (demo_node\<lparr>traffic_waypoint := 1\<rparr>)"
proof -
  have a: "resolve_traffic_lights demo_node 0
     = Inr (demo_node\<lparr>state := 1, breaking_acceleration := Some (5 / 2)\<rparr>)"
    using resolve_stop_signal [of demo_node "[0, 1, 2]" 10 0] demo_arc_2
    by (simp add: demo_node_def Let_def)
  have b: "resolve_traffic_lights (demo_node\<lparr>traffic_waypoint := 1\<rparr>) 0
     = Inr (demo_node\<lparr>traffic_waypoint := 1\<rparr>)"
    using resolve_stop_signal [of "demo_node\<lparr>traffic_waypoint := 1\<rparr>" "[0, 1, 2]" 10 0] demo_arc_1
    by (simp add: demo_node_def Let_def)
  show ?thesis using a b by simp
qed

lemma decel_nonneg: "decel s x = Inr m \<Longrightarrow> 0 \<le> m"
  by (auto simp: decel_def attr_def split: option.splits if_splits)

lemma decel_defined:
  "current_velocity s \<noteq> None \<Longrightarrow> x \<noteq> 0 \<Longrightarrow> \<exists>m. decel s x = Inr m"
  by (auto simp: decel_def attr_def)

text \<open>
  C9. A stop index that is a route index at or behind the tracked index \<open>t\<close> (also
  \<open>t\<close> equal to the route length, the unwrapped closest index plus one): the arc
  distance is computed without an out-of-range access and is \<open>0\<close>; the resolver, called
  in the Driving state, never returns a Braking node, and returns the node unchanged
  whenever the speed has been received and the limit is not zero.
\<close>

theorem stop_behind_never_brakes:
  assumes "state s = 0" "base_waypoints s = Some ws"
    and "0 \<le> traffic_waypoint s" "traffic_waypoint s < int (length ws)"
    and "traffic_waypoint s \<le> t"
  shows "distance (heap s) ws t (traffic_waypoint s) = Inr 0
       \<and> (\<forall>s'. resolve_traffic_lights s t = Inr s' \<longrightarrow> state s' = 0)
       \<and> (current_velocity s \<noteq> None \<and> breaking_acceleration_limit s \<noteq> 0
            \<longrightarrow> resolve_traffic_lights s t = Inr s)"
proof -
  have t0: "0 \<le> t" using assms by linarith
  have d: "distance (heap s) ws t (traffic_waypoint s) = Inr 0"
    using distance_arc [OF t0 assms(4), of "heap s"] arc_distance_behind [OF assms(5)]
    by simp
  have s0: "s\<lparr>state := 0\<rparr> = s" using assms(1) by simp
  have tw: "traffic_waypoint s \<noteq> - 1" using assms(3) by linarith
  have r1: "\<forall>s'. resolve_traffic_lights s t = Inr s' \<longrightarrow> state s' = 0"
    using assms(1,2) tw d
    by (auto simp: resolve_traffic_lights_def attr_def
             split: sum.splits if_splits dest: decel_nonneg)
  have r2: "current_velocity s \<noteq> None \<and> breaking_acceleration_limit s \<noteq> 0
            \<longrightarrow> resolve_traffic_lights s t = Inr s"
  proof
    assume h: "current_velocity s \<noteq> None \<and> breaking_acceleration_limit s \<noteq> 0"
    then obtain m where m: "decel s (breaking_acceleration_limit s) = Inr m"
      using decel_defined by blast
    then have "0 \<le> m" by (rule decel_nonneg)
    then show "resolve_traffic_lights s t = Inr s"
      using assms(1,2) tw d s0 m
      by (simp add: resolve_traffic_lights_def attr_def)
  qed
  show ?thesis using d r1 r2 by blast
qed

theorem stop_behind_never_brakes_witness:
  "distance (heap demo_node) [0, 1, 2] 3 2 = Inr 0
   \<and> resolve_traffic_lights demo_node 3 = Inr demo_node
   \<and> resolve_traffic_lights demo_node 2 = Inr demo_node"
  using stop_behind_never_brakes [of demo_node "[0, 1, 2]" 3]
        stop_behind_never_brakes [of demo_node "[0, 1, 2]" 2]
  by (simp add: demo_node_def)

subsection \<open>The locator\<close>

lemma closest_loop_invariant:
  assumes "current_pose s = Some cp"
    and "(pre = [] \<and> min_dist = None)
       \<or> (is_closest (heap s) (position cp) pre wp
          \<and> min_dist = Some (dl (position cp) (position (pose (heap s ! (pre ! wp))))))"
    and "pre @ rest \<noteq> []"
  shows "\<exists>c. closest_loop s rest (length pre) min_dist wp = Inr c
           \<and> is_closest (heap s) (position cp) (pre @ rest) c"
  using assms(2,3)
proof (induction rest arbitrary: pre min_dist wp)
  case Nil
  then show ?case by auto
next
  case (Cons a rest)
  let ?D = "\<lambda>r. dl (position cp) (position (pose (heap s ! r)))"
  let ?take = "case min_dist of None \<Rightarrow> True | Some m \<Rightarrow> ?D a < m"
  have step: "closest_loop s (a # rest) (length pre) min_dist wp =
      (if ?take then closest_loop s rest (length (pre @ [a])) (Some (?D a)) (length pre)
       else closest_loop s rest (length (pre @ [a])) min_dist wp)"
    using assms(1) by (simp add: attr_def Let_def)
  show ?case
  proof (cases ?take)
    case True
    have inv: "is_closest (heap s) (position cp) (pre @ [a]) (length pre)
          \<and> Some (?D a) = Some (?D ((pre @ [a]) ! length pre))"
    proof (cases "pre = []")
      case True
      then show ?thesis by (simp add: is_closest_def)
    next
      case False
      with Cons.prems(1) have c: "is_closest (heap s) (position cp) pre wp"
        and m: "min_dist = Some (?D (pre ! wp))" by auto
      from True m have lt: "?D a < ?D (pre ! wp)" by simp
      have "\<forall>j<length pre. ?D a < ?D (pre ! j)"
        using c lt unfolding is_closest_def by fastforce
      then show ?thesis
        by (auto simp: is_closest_def nth_append less_Suc_eq)
    qed
    have "\<exists>c. closest_loop s rest (length (pre @ [a])) (Some (?D a)) (length pre) = Inr c
           \<and> is_closest (heap s) (position cp) ((pre @ [a]) @ rest) c"
      by (rule Cons.IH) (use inv in auto)
    then show ?thesis using True step by simp
  next
    case False
    then obtain m where m: "min_dist = Some m" and ge: "m \<le> ?D a"
      by (cases min_dist) auto
    with Cons.prems(1) have c: "is_closest (heap s) (position cp) pre wp"
      and m': "m = ?D (pre ! wp)" by auto
    have inv: "is_closest (heap s) (position cp) (pre @ [a]) wp
          \<and> min_dist = Some (?D ((pre @ [a]) ! wp))"
      using c m m' ge
      by (auto simp: is_closest_def nth_append less_Suc_eq)
    have "\<exists>c. closest_loop s rest (length (pre @ [a])) min_dist wp = Inr c
           \<and> is_closest (heap s) (position cp) ((pre @ [a]) @ rest) c"
      by (rule Cons.IH) (use inv in auto)
    then show ?thesis using False step by simp
  qed
qed

lemma get_closest_waypoint_closest:
  assumes "current_pose s = Some cp" "base_waypoints s = Some ws" "ws \<noteq> []"
  shows "\<exists>c. get_closest_waypoint s = Inr c \<and> is_closest (heap s) (position cp) ws c"
  using closest_loop_invariant [of s cp "[]" None 0 ws] assms
  by (simp add: get_closest_waypoint_def attr_def)

text \<open>
  The locator as the source computes it: for a non-empty route it finds the closest
  waypoint \<open>c\<close> (minimum distance from the vehicle position, lowest index among ties)
  and compares the raw value \<open>\<bar>theta - heading\<bar>\<close> of the yaw and of the \<open>atan2\<close> bearing
  with \<open>pi / 4\<close>, returning \<open>c\<close> up to the boundary and \<open>c + 1\<close>, not wrapped, above it.
\<close>

lemma get_next_waypoint_raw_angle:
  assumes "current_pose s = Some cp" "base_waypoints s = Some ws" "ws \<noteq> []"
  shows "\<exists>c. is_closest (heap s) (position cp) ws c
           \<and> (let target = position (pose (heap s ! (ws ! c)));
                   angle = \<bar>yaw (orientation cp)
                            - atan2 (p_y target - p_y (position cp)) (p_x target - p_x (position cp))\<bar>
               in (angle \<le> pi / 4 \<longrightarrow> get_next_waypoint yaw s = Inr (int c))
                \<and> (angle > pi / 4 \<longrightarrow> get_next_waypoint yaw s = Inr (int c + 1)))"
proof -
  obtain c where c: "get_closest_waypoint s = Inr c"
    and cl: "is_closest (heap s) (position cp) ws c"
    using get_closest_waypoint_closest [OF assms] by blast
  then have "c < length ws" by (simp add: is_closest_def)
  then have g: "py_get ws (int c) = Inr (ws ! c)" by (simp add: py_get_def)
  show ?thesis
    using cl c g assms(1,2)
    by (intro exI [of _ c]) (simp add: get_next_waypoint_def attr_def Let_def)
qed

lemma is_closest_at_zero:
  assumes "is_closest h p ws c" "dl p (position (pose (h ! (ws ! 0)))) = 0"
  shows "c = 0"
proof (rule ccontr)
  assume "c \<noteq> 0"
  then have "dl p (position (pose (h ! (ws ! c)))) < 0"
    using assms unfolding is_closest_def by force
  then show False using dl_nonneg [of p "position (pose (h ! (ws ! c)))"] by linarith
qed

lemma get_next_waypoint_demo:
  "get_next_waypoint flat_yaw demo_node = Inr 0"
proof -
  let ?cp = "pose (wp_at 0 0)"
  have hs: "current_pose demo_node = Some ?cp" "base_waypoints demo_node = Some [0, 1, 2]"
    "[0, 1, 2::nat] \<noteq> []"
    by (simp_all add: demo_node_def)
  obtain c where c: "is_closest (heap demo_node) (position ?cp) [0, 1, 2] c"
    and n: "let target = position (pose (heap demo_node ! ([0, 1, 2] ! c)));
                angle = \<bar>flat_yaw (orientation ?cp)
                         - atan2 (p_y target - p_y (position ?cp)) (p_x target - p_x (position ?cp))\<bar>
            in (angle \<le> pi / 4 \<longrightarrow> get_next_waypoint flat_yaw demo_node = Inr (int c))
             \<and> (angle > pi / 4 \<longrightarrow> get_next_waypoint flat_yaw demo_node = Inr (int c + 1))"
    using get_next_waypoint_raw_angle [OF hs, of flat_yaw] by blast
  have "dl (position ?cp) (position (pose (heap demo_node ! ([0, 1, 2] ! 0)))) = 0"
    by (simp add: demo_node_def wp_at_def dl_def)
  with c have c0: "c = 0" by (rule is_closest_at_zero)
  show ?thesis
    using n unfolding c0
    by (simp add: demo_node_def wp_at_def atan2_def flat_yaw_def Let_def)
qed

lemma cos_abs_diff: "cos (a - b) = cos \<bar>a - b\<bar>" for a b :: real
proof (cases "a - b < 0")
  case True
  then have "\<bar>a - b\<bar> = - (a - b)" by simp
  then show ?thesis by (simp only: cos_minus)
next
  case False
  then show ?thesis by simp
qed

lemma angular_difference_no_wrap:
  assumes "\<bar>a - b\<bar> \<le> pi"
  shows "angular_difference a b = \<bar>a - b\<bar>"
proof -
  have e: "cos (a - b) = cos \<bar>a - b\<bar>" by (rule cos_abs_diff)
  have "arccos (cos \<bar>a - b\<bar>) = \<bar>a - b\<bar>"
    using assms by (intro arccos_cos) simp_all
  then show ?thesis unfolding angular_difference_def e .
qed

lemma angular_difference_wrap:
  assumes "pi \<le> \<bar>a - b\<bar>" "\<bar>a - b\<bar> \<le> 2 * pi"
  shows "angular_difference a b = 2 * pi - \<bar>a - b\<bar>"
proof -
  have "cos (a - b) = cos \<bar>a - b\<bar>" by (rule cos_abs_diff)
  also have "\<dots> = cos (2 * pi - \<bar>a - b\<bar>)" by simp
  finally have e: "cos (a - b) = cos (2 * pi - \<bar>a - b\<bar>)" .
  have "arccos (cos (2 * pi - \<bar>a - b\<bar>)) = 2 * pi - \<bar>a - b\<bar>"
    using assms by (intro arccos_cos) linarith+
  then show ?thesis unfolding angular_difference_def e .
qed

text \<open>
  Where yaw and bearing do not lie on two sides of the cut at \<open>pi\<close> and \<open>- pi\<close>, the raw
  value is the angular difference and the locator compares the angular difference with
  \<open>pi / 4\<close>.
\<close>

lemma get_next_waypoint_no_wrap:
  assumes "current_pose s = Some cp" "base_waypoints s = Some ws" "ws \<noteq> []"
  shows "\<exists>c. is_closest (heap s) (position cp) ws c
           \<and> (let theta = yaw (orientation cp);
                   heading = bearing (position cp) (position (pose (heap s ! (ws ! c))))
               in \<bar>theta - heading\<bar> \<le> pi \<longrightarrow>
                    (angular_difference theta heading \<le> pi / 4
                       \<longrightarrow> get_next_waypoint yaw s = Inr (int c))
                  \<and> (angular_difference theta heading > pi / 4
                       \<longrightarrow> get_next_waypoint yaw s = Inr (int c + 1)))"
proof -
  obtain c where cl: "is_closest (heap s) (position cp) ws c"
    and n: "let target = position (pose (heap s ! (ws ! c)));
                angle = \<bar>yaw (orientation cp)
                         - atan2 (p_y target - p_y (position cp)) (p_x target - p_x (position cp))\<bar>
            in (angle \<le> pi / 4 \<longrightarrow> get_next_waypoint yaw s = Inr (int c))
             \<and> (angle > pi / 4 \<longrightarrow> get_next_waypoint yaw s = Inr (int c + 1))"
    using get_next_waypoint_raw_angle [OF assms, of yaw] by blast
  show ?thesis
    using cl n
    by (intro exI [of _ c]) (auto simp: Let_def bearing_def angular_difference_no_wrap)
qed

lemma west_yaw: "euler_yaw (orientation (pose (wp_xy x y v))) = pi"
  by (simp add: euler_yaw_def wp_xy_def atan2_def)

lemma west_bearing:
  "bearing (position (pose (wp_xy 0 0 0))) (position (pose (wp_xy (- 1) (- (1 / 1000)) 10)))
     = arctan (1 / 1000) - pi"
  by (simp add: bearing_def wp_xy_def atan2_def)

lemma arctan_small: "0 \<le> arctan (1 / 1000)" "arctan (1 / 1000) \<le> pi / 4"
proof -
  show "0 \<le> arctan (1 / 1000)" by simp
  have "arctan (1 / 1000) \<le> arctan 1" by (simp add: arctan_le_iff)
  then show "arctan (1 / 1000) \<le> pi / 4" by (simp add: arctan_one)
qed

lemma west_closest: "get_closest_waypoint west_node = Inr 0"
  by (simp add: get_closest_waypoint_def attr_def west_node_def wp_xy_def dl_def Let_def)

text \<open>
  C5. The locator is to return the closest index when the absolute angular difference
  between the heading of the vehicle and the bearing to the closest waypoint is at most
  \<open>pi / 4\<close>, and the closest index plus one when it is more. The source does not do that
  where the two angles lie on two sides of the cut: on \<open>west_node\<close> the vehicle heads
  west with yaw \<open>pi\<close>, the closest waypoint has index \<open>0\<close> and lies ahead, the angular
  difference between heading and bearing is \<open>arctan (1 / 1000)\<close>, below \<open>pi / 4\<close>, and
  \<open>get_next_waypoint\<close> returns \<open>1\<close>, because \<open>\<bar>theta - heading\<bar>\<close> is
  \<open>2 * pi - arctan (1 / 1000)\<close> there.
\<close>

theorem get_next_waypoint_skips_waypoint_ahead:
  "get_closest_waypoint west_node = Inr 0
   \<and> angular_difference (euler_yaw (orientation (pose (wp_xy 0 0 0))))
        (bearing (position (pose (wp_xy 0 0 0))) (route_position (heap west_node) [0, 1] 0))
       = arctan (1 / 1000)
   \<and> arctan (1 / 1000) \<le> pi / 4
   \<and> get_next_waypoint euler_yaw west_node = Inr 1"
proof -
  have rp: "route_position (heap west_node) [0, 1] 0
      = position (pose (wp_xy (- 1) (- (1 / 1000)) 10))"
    by (simp add: route_position_def west_node_def)
  have "0 \<le> pi - (arctan (1 / 1000) - pi)"
    using arctan_small pi_gt_zero by linarith
  then have raw: "\<bar>pi - (arctan (1 / 1000) - pi)\<bar> = 2 * pi - arctan (1 / 1000)"
    by linarith
  have "angular_difference pi (arctan (1 / 1000) - pi) = 2 * pi - \<bar>pi - (arctan (1 / 1000) - pi)\<bar>"
  proof (rule angular_difference_wrap)
    show "pi \<le> \<bar>pi - (arctan (1 / 1000) - pi)\<bar>"
      unfolding raw using arctan_small pi_gt_zero by linarith
    show "\<bar>pi - (arctan (1 / 1000) - pi)\<bar> \<le> 2 * pi"
      unfolding raw using arctan_small by linarith
  qed
  then have ad: "angular_difference pi (arctan (1 / 1000) - pi) = arctan (1 / 1000)"
    unfolding raw by simp
  have big: "\<not> 2 * pi - arctan (1 / 1000) \<le> pi / 4"
    using arctan_small pi_gt_zero by linarith
  have by0: "bearing (position (pose (wp_xy 0 0 0))) (position (pose (heap west_node ! 0)))
      = arctan (1 / 1000) - pi"
    using west_bearing by (simp add: west_node_def)
  have nxt: "get_next_waypoint euler_yaw west_node = Inr 1"
    using west_closest big by0 raw
    by (simp add: get_next_waypoint_def attr_def py_get_def west_node_def west_yaw
                  bearing_def Let_def)
  show ?thesis
    unfolding rp west_yaw west_bearing
    using west_closest ad arctan_small(2) nxt by simp
qed

subsection \<open>The builder in the Driving state\<close>

lemma route_ref_in_heap:
  assumes "ws \<noteq> []" "heap_ok h0 ws" "take (length h0) h = h0"
  shows "h ! (ws ! nat (i mod int (length ws))) = route_cell h0 ws i"
proof -
  have "nat (i mod int (length ws)) < length ws"
    using assms(1) by (simp add: nat_less_iff)
  then have lt: "ws ! nat (i mod int (length ws)) < length h0"
    using assms(2) by (simp add: heap_ok_def)
  have "h0 ! (ws ! nat (i mod int (length ws))) = take (length h0) h ! (ws ! nat (i mod int (length ws)))"
    using assms(3) by simp
  also have "\<dots> = h ! (ws ! nat (i mod int (length ws)))"
    using lt by simp
  finally show ?thesis by (simp add: route_cell_def)
qed

lemma take_append_cell:
  "take (length h0) h = h0 \<Longrightarrow> take (length h0) (h @ [c]) = h0"
  by (metis append_eq_conv_conj append.assoc append_take_drop_id)

lemma upt_shift: "[n..<n + Suc k] = n # [Suc n..<Suc n + k]"
  by (simp add: upt_conv_Cons)

lemma copy_loop_cells:
  assumes "ws \<noteq> []" "heap_ok h0 ws"
  shows "take (length h0) h = h0 \<Longrightarrow>
         copy_loop ws is h fw
           = Inr (h @ map (route_cell h0 ws) is, fw @ [length h..<length h + length is])"
proof (induction "is" arbitrary: h fw)
  case Nil
  then show ?case by simp
next
  case (Cons i "is")
  let ?c = "route_cell h0 ws i"
  have src: "h ! (ws ! nat (i mod int (length ws))) = ?c"
    using assms Cons.prems by (rule route_ref_in_heap)
  have cell: "\<lparr>pose = pose ?c, linear_x = linear_x ?c\<rparr> = ?c"
    by simp
  have step: "copy_loop ws (i # is) h fw = copy_loop ws is (h @ [?c]) (fw @ [length h])"
    using assms(1) by (simp add: Let_def src cell del: Waypoint.simps)
  have ih: "copy_loop ws is (h @ [?c]) (fw @ [length h])
       = Inr ((h @ [?c]) @ map (route_cell h0 ws) is,
              (fw @ [length h]) @ [length (h @ [?c])..<length (h @ [?c]) + length is])"
    by (rule Cons.IH) (rule take_append_cell [OF Cons.prems])
  show ?case
    unfolding step ih using upt_shift [of "length h" "length is"] by simp
qed

lemma stop_loop_cells:
  assumes "ws \<noteq> []" "heap_ok h0 ws"
  shows "take (length h0) h = h0 \<Longrightarrow>
         stop_loop ws is h fw
           = Inr (h @ map (\<lambda>i. (route_cell h0 ws i)\<lparr>linear_x := 0\<rparr>) is,
                  fw @ [length h..<length h + length is])"
proof (induction "is" arbitrary: h fw)
  case Nil
  then show ?case by simp
next
  case (Cons i "is")
  let ?c = "(route_cell h0 ws i)\<lparr>linear_x := 0\<rparr>"
  have src: "h ! (ws ! nat (i mod int (length ws))) = route_cell h0 ws i"
    using assms Cons.prems by (rule route_ref_in_heap)
  have cell: "\<lparr>pose = pose (route_cell h0 ws i), linear_x = 0\<rparr> = ?c"
    by simp
  have step: "stop_loop ws (i # is) h fw = stop_loop ws is (h @ [?c]) (fw @ [length h])"
    using assms(1) by (simp add: Let_def src cell del: Waypoint.simps)
  have ih: "stop_loop ws is (h @ [?c]) (fw @ [length h])
       = Inr ((h @ [?c]) @ map (\<lambda>i. (route_cell h0 ws i)\<lparr>linear_x := 0\<rparr>) is,
              (fw @ [length h]) @ [length (h @ [?c])..<length (h @ [?c]) + length is])"
    by (rule Cons.IH) (rule take_append_cell [OF Cons.prems])
  show ?case
    unfolding step ih using upt_shift [of "length h" "length is"] by simp
qed

lemma driving_result:
  assumes "state s = 0" "base_waypoints s = Some ws" "ws \<noteq> []" "heap_ok (heap s) ws"
  shows "calculate_final_waypoints s t
     = Inr (s\<lparr>final_waypoints := Some [length (heap s)..<length (heap s) + nat LOOKAHEAD_WPS],
              heap := heap s @ map (route_cell (heap s) ws) [t..t + LOOKAHEAD_WPS - 1]\<rparr>)"
proof -
  have "copy_loop ws [t..t + LOOKAHEAD_WPS - 1] (heap s) []
      = Inr (heap s @ map (route_cell (heap s) ws) [t..t + LOOKAHEAD_WPS - 1],
             [] @ [length (heap s)..<length (heap s) + length [t..t + LOOKAHEAD_WPS - 1]])"
    using assms(3,4) by (rule copy_loop_cells) simp
  moreover have "length [t..t + LOOKAHEAD_WPS - 1] = nat LOOKAHEAD_WPS"
    by simp
  ultimately show ?thesis
    using assms(1,2) by (simp add: calculate_final_waypoints_def attr_def)
qed


lemma demo_heap_ok: "heap_ok (heap demo_node) [0, 1, 2]"
  by (simp add: heap_ok_def demo_node_def)


subsection \<open>The builder in the Braking state\<close>

lemma smooth_step:
  assumes "0 \<le> a"
  shows "smooth_loop (Some a) l (wp # rest) h
     = smooth_loop (Some a) l rest
         (h[wp := (h ! wp)\<lparr>linear_x := brake_speed a (position (pose (h ! l))) (h ! wp)\<rparr>])"
proof -
  have nn: "\<not> 2 * a * max 0 (d - 5) < 0" for d :: real
    using assms by (simp add: not_less)
  show ?thesis
    by (simp add: Let_def nn brake_speed_def dl_def power2_eq_square)
qed

lemma smooth_loop_cells:
  assumes "0 \<le> a"
  shows "distinct as \<Longrightarrow> l \<notin> set as \<Longrightarrow>
     \<exists>h'. smooth_loop (Some a) l as h = Inr h' \<and> length h' = length h
        \<and> (\<forall>x<length h. h' ! x =
              (if x \<in> set as
               then (h ! x)\<lparr>linear_x := brake_speed a (position (pose (h ! l))) (h ! x)\<rparr>
               else h ! x))"
proof (induction as arbitrary: h)
  case Nil
  then show ?case by simp
next
  case (Cons wp rest)
  let ?h1 = "h[wp := (h ! wp)\<lparr>linear_x := brake_speed a (position (pose (h ! l))) (h ! wp)\<rparr>]"
  have d: "distinct rest" "l \<notin> set rest" "wp \<notin> set rest" "l \<noteq> wp"
    using Cons.prems by auto
  obtain h' where r: "smooth_loop (Some a) l rest ?h1 = Inr h'"
    and len: "length h' = length ?h1"
    and c: "\<forall>x<length ?h1. h' ! x =
              (if x \<in> set rest
               then (?h1 ! x)\<lparr>linear_x := brake_speed a (position (pose (?h1 ! l))) (?h1 ! x)\<rparr>
               else ?h1 ! x)"
    using Cons.IH [OF d(1,2), of ?h1] by blast
  have l1: "?h1 ! l = h ! l" using d(4) by simp
  have "h' ! x =
          (if x \<in> set (wp # rest)
           then (h ! x)\<lparr>linear_x := brake_speed a (position (pose (h ! l))) (h ! x)\<rparr>
           else h ! x)" if "x < length h" for x
  proof (cases "x = wp")
    case True
    then show ?thesis using c that d(3) by simp
  next
    case False
    then show ?thesis using c that l1 by simp
  qed
  moreover have "smooth_loop (Some a) l (wp # rest) h = Inr h'"
    using r by (simp only: smooth_step [OF assms])
  moreover have "length h' = length h" using len by simp
  ultimately show ?case by blast
qed

lemma smooth_loop_frame:
  "smooth_loop acc l as h = Inr h' \<Longrightarrow>
     length h' = length h \<and> (\<forall>x. x \<notin> set as \<longrightarrow> h' ! x = h ! x)"
proof (induction as arbitrary: h)
  case Nil
  then show ?case by simp
next
  case (Cons wp rest)
  from Cons.prems obtain h1 where h1: "smooth_loop acc l rest h1 = Inr h'"
    and e: "length h1 = length h" "\<forall>x. x \<noteq> wp \<longrightarrow> h1 ! x = h ! x"
    by (auto simp: Let_def split: option.splits if_splits)
  from Cons.IH [OF h1] show ?case using e by auto
qed

lemma braking_result:
  assumes "state s = 1" "base_waypoints s = Some ws" "ws \<noteq> []" "heap_ok (heap s) ws"
    and "breaking_acceleration s = Some a" "0 \<le> a"
    and n: "n = nat (traffic_waypoint s - t)"
    and m: "m = nat (max (t + LOOKAHEAD_WPS) (traffic_waypoint s + 1) - traffic_waypoint s)"
  shows "\<exists>s'. calculate_final_waypoints s t = Inr s'
     \<and> length (window s') = n + m
     \<and> (\<forall>k<n. window s' ! k =
           (route_cell (heap s) ws (t + int k))
             \<lparr>linear_x := brake_speed a
                 (position (pose (route_cell (heap s) ws (traffic_waypoint s))))
                 (route_cell (heap s) ws (t + int k))\<rparr>)
     \<and> (\<forall>k<m. window s' ! (n + k) =
           (route_cell (heap s) ws (traffic_waypoint s + int k))\<lparr>linear_x := 0\<rparr>)"
proof -
  let ?S = "traffic_waypoint s"
  let ?L = "length (heap s)"
  let ?rc = "route_cell (heap s) ws"
  let ?sc = "\<lambda>i. (?rc i)\<lparr>linear_x := 0\<rparr>"
  let ?cruise = "[t..?S - 1]"
  let ?stop = "[?S..max (t + LOOKAHEAD_WPS) (?S + 1) - 1]"
  let ?h1 = "heap s @ map ?rc ?cruise"
  let ?h2 = "?h1 @ map ?sc ?stop"
  let ?fw = "[?L..<?L + n] @ [?L + n..<?L + n + m]"
  let ?last = "?L + n"
  let ?h2' = "?h2[?last := (?h2 ! ?last)\<lparr>linear_x := 0\<rparr>]"
  have lc: "length ?cruise = n" using n by simp
  have ls: "length ?stop = m" using m by simp
  have m1: "0 < m" using m by simp
  have c1: "copy_loop ws ?cruise (heap s) [] = Inr (?h1, [?L..<?L + n])"
    using copy_loop_cells [OF assms(3,4), of "heap s" ?cruise "[]"] lc by simp
  have t1: "take ?L ?h1 = heap s" by simp
  have c2: "stop_loop ws ?stop ?h1 [?L..<?L + n] = Inr (?h2, ?fw)"
    using stop_loop_cells [OF assms(3,4) t1, of ?stop "[?L..<?L + n]"] lc ls by simp
  have lfw: "length ?fw = n + m" by simp
  have g: "py_get ?fw (int n) = Inr ?last"
    using m1 by (simp add: py_get_def nth_append)
  have tk: "rev (take n ?fw) = rev [?L..<?L + n]" by simp
  have lh2: "length ?h2' = ?L + n + m" using lc ls by simp
  obtain h3 where r: "smooth_loop (Some a) ?last (rev [?L..<?L + n]) ?h2' = Inr h3"
    and l3: "length h3 = length ?h2'"
    and c3: "\<forall>x<length ?h2'. h3 ! x =
              (if x \<in> set (rev [?L..<?L + n])
               then (?h2' ! x)\<lparr>linear_x := brake_speed a (position (pose (?h2' ! ?last))) (?h2' ! x)\<rparr>
               else ?h2' ! x)"
    using smooth_loop_cells [OF assms(6), of "rev [?L..<?L + n]" ?last ?h2'] by auto
  let ?s' = "s\<lparr>final_waypoints := Some ?fw, heap := h3\<rparr>"
  have res: "calculate_final_waypoints s t = Inr ?s'"
    using assms(1,2,5) c1 c2 g r
    by (simp add: calculate_final_waypoints_def attr_def Let_def lc)
  have h2_stop: "?h2 ! (?L + n + k) = ?sc (?S + int k)" if "k < m" for k
  proof -
    have "?h2 ! (?L + n + k) = map ?sc ?stop ! k"
      using lc by (simp add: nth_append)
    also have "\<dots> = ?sc (?S + int k)"
      using that ls m by simp
    finally show ?thesis .
  qed
  have h2_cruise: "?h2 ! (?L + k) = ?rc (t + int k)" if "k < n" for k
  proof -
    have "?h2 ! (?L + k) = map ?rc ?cruise ! k"
      using that lc by (simp add: nth_append)
    also have "\<dots> = ?rc (t + int k)"
      using that n by simp
    finally show ?thesis .
  qed
  have last_pose: "position (pose (?h2' ! ?last)) = position (pose (?rc ?S))"
    using h2_stop [OF m1] lc ls m1 by simp
  have w: "window ?s' ! k = h3 ! (?L + k)" if "k < n + m" for k
  proof -
    have "?fw = [?L..<?L + (n + m)]"
      by (metis add.assoc le_add1 upt_add_eq_append)
    then show ?thesis using that by (simp add: window_def)
  qed
  have cruise: "window ?s' ! k = (?rc (t + int k))
       \<lparr>linear_x := brake_speed a (position (pose (?rc ?S))) (?rc (t + int k))\<rparr>"
    if "k < n" for k
  proof -
    have "?h2' ! (?L + k) = ?rc (t + int k)"
      using that h2_cruise [OF that] by simp
    moreover have "?L + k \<in> set (rev [?L..<?L + n])" using that by simp
    moreover have "?L + k < length ?h2'" using that lh2 by linarith
    ultimately have "h3 ! (?L + k) = (?rc (t + int k))
        \<lparr>linear_x := brake_speed a (position (pose (?h2' ! ?last))) (?rc (t + int k))\<rparr>"
      using c3 by simp
    then show ?thesis using w [of k] that last_pose by simp
  qed
  have stop: "window ?s' ! (n + k) = ?sc (?S + int k)" if "k < m" for k
  proof -
    have a: "?L + (n + k) \<notin> set (rev [?L..<?L + n])" by simp
    have b: "?L + (n + k) < length ?h2'" using that lh2 by linarith
    have lt: "?L + n + k < length ?h2" using that lc ls by simp
    have "?h2' ! (?L + n + k) = ?sc (?S + int k)"
    proof (cases "k = 0")
      case True
      then show ?thesis using h2_stop [OF that] lt by simp
    next
      case False
      then show ?thesis using h2_stop [OF that] by simp
    qed
    then have "h3 ! (?L + (n + k)) = ?sc (?S + int k)"
      using c3 a b by (simp add: add.assoc)
    then show ?thesis using w [of "n + k"] that by simp
  qed
  have len: "length (window ?s') = n + m"
    by (simp add: window_def)
  show ?thesis
    using res len cruise stop by blast
qed

text \<open>
  C3. In the Braking state with stop index \<open>S\<close> and tracked index \<open>t\<close> the builder
  returns a window whose stop zone starts at position \<open>target_wp\<close>, the length of the
  cruise zone, and has \<open>m = max (t + LOOKAHEAD_WPS) (S + 1) - S\<close> entries, one for each
  index of \<open>[S, max (t + LOOKAHEAD_WPS) (S + 1))\<close>; \<open>m\<close> is at least one, and entry \<open>k\<close>
  of the zone has the pose of \<open>Route[(S + k) mod N]\<close> and speed \<open>0\<close>, the first one
  (\<open>k = 0\<close>, the entry that is set to \<open>0\<close> once more) included. The route is not empty
  and the recorded deceleration is not negative.
\<close>

theorem stop_zone_zero:
  assumes "state s = 1" "base_waypoints s = Some ws" "ws \<noteq> []" "heap_ok (heap s) ws"
    and "breaking_acceleration s = Some a" "0 \<le> a"
  shows "\<exists>s'. calculate_final_waypoints s t = Inr s'
     \<and> (let S = traffic_waypoint s;
             target_wp = nat (S - t);
             m = nat (max (t + LOOKAHEAD_WPS) (S + 1) - S)
         in 0 < m
          \<and> length (window s') = target_wp + m
          \<and> (\<forall>k<m. pose (window s' ! (target_wp + k)) = pose (route_cell (heap s) ws (S + int k))
                   \<and> linear_x (window s' ! (target_wp + k)) = 0))"
proof -
  obtain s' where "calculate_final_waypoints s t = Inr s'"
    and "length (window s') = nat (traffic_waypoint s - t)
            + nat (max (t + LOOKAHEAD_WPS) (traffic_waypoint s + 1) - traffic_waypoint s)"
    and "\<forall>k<nat (max (t + LOOKAHEAD_WPS) (traffic_waypoint s + 1) - traffic_waypoint s).
           window s' ! (nat (traffic_waypoint s - t) + k) =
           (route_cell (heap s) ws (traffic_waypoint s + int k))\<lparr>linear_x := 0\<rparr>"
    using braking_result [OF assms refl refl, of t] by blast
  then show ?thesis
    by (intro exI [of _ s']) (simp add: Let_def)
qed

text \<open>
  C2. In the Braking state every cruise-zone entry \<open>k\<close> (a position before the first
  stop-zone entry) keeps the pose of \<open>Route[(t + k) mod N]\<close> and gets the speed
  \<open>min candidate nominal\<close>, where \<open>candidate = sqrt (2 * A * max 0 (dist - 5))\<close>, snapped
  to \<open>0\<close> below \<open>1\<close>, \<open>dist\<close> is the straight-line distance from the entry to the first
  stop-zone entry and \<open>nominal\<close> the speed of the route waypoint; so the speed never
  exceeds the nominal speed.
\<close>

theorem cruise_zone_speed:
  assumes "state s = 1" "base_waypoints s = Some ws" "ws \<noteq> []" "heap_ok (heap s) ws"
    and "breaking_acceleration s = Some a" "0 \<le> a"
  shows "\<exists>s'. calculate_final_waypoints s t = Inr s'
     \<and> (\<forall>k<nat (traffic_waypoint s - t).
           let w = route_cell (heap s) ws (t + int k);
               stop_entry = window s' ! nat (traffic_waypoint s - t);
               dist = dl (position (pose (window s' ! k))) (position (pose stop_entry));
               candidate = sqrt (2 * a * max 0 (dist - 5));
               candidate = (if candidate < 1 then 0 else candidate)
           in pose (window s' ! k) = pose w
            \<and> linear_x (window s' ! k) = min candidate (linear_x w)
            \<and> linear_x (window s' ! k) \<le> linear_x w)"
proof -
  let ?n = "nat (traffic_waypoint s - t)"
  let ?m = "nat (max (t + LOOKAHEAD_WPS) (traffic_waypoint s + 1) - traffic_waypoint s)"
  obtain s' where r: "calculate_final_waypoints s t = Inr s'"
    and c: "\<forall>k<?n. window s' ! k =
           (route_cell (heap s) ws (t + int k))
             \<lparr>linear_x := brake_speed a
                 (position (pose (route_cell (heap s) ws (traffic_waypoint s))))
                 (route_cell (heap s) ws (t + int k))\<rparr>"
    and z: "\<forall>k<?m. window s' ! (?n + k) =
           (route_cell (heap s) ws (traffic_waypoint s + int k))\<lparr>linear_x := 0\<rparr>"
    using braking_result [OF assms refl refl, of t] by blast
  have "0 < ?m" by simp
  then have "window s' ! (?n + 0) = (route_cell (heap s) ws (traffic_waypoint s + int 0))\<lparr>linear_x := 0\<rparr>"
    using z by blast
  then have st: "position (pose (window s' ! ?n))
       = position (pose (route_cell (heap s) ws (traffic_waypoint s)))"
    by simp
  show ?thesis
    using r c st by (intro exI [of _ s']) (simp add: Let_def brake_speed_def)
qed

lemma braking_node_facts:
  "state braking_node = 1" "base_waypoints braking_node = Some [0, 1, 2]"
  "[0, 1, 2::nat] \<noteq> []" "heap_ok (heap braking_node) [0, 1, 2]"
  "breaking_acceleration braking_node = Some (5 / 2)" "(0::real) \<le> 5 / 2"
  by (simp_all add: braking_node_def demo_node_def heap_ok_def)

lemma braking_node_reads:
  "traffic_waypoint braking_node = 2"
  "route_cell (heap braking_node) [0, 1, 2] 1 = wp_at 10 10"
  "route_cell (heap braking_node) [0, 1, 2] 2 = wp_at 20 10"
  "route_cell (heap braking_node) [0, 1, 2] 3 = wp_at 0 10"
  by (simp_all add: route_cell_def braking_node_def demo_node_def)

lemma wp_at_fields:
  "linear_x (wp_at x v) = v"
  "(wp_at x v)\<lparr>linear_x := u\<rparr> = wp_at x u"
  by (simp_all add: wp_at_def)

lemma dl_wp_at: "dl (position (pose (wp_at x u))) (position (pose (wp_at y v))) = \<bar>x - y\<bar>"
  by (simp add: wp_at_def dl_on_axis)

lemma sqrt_25: "sqrt 25 = 5"
  by (rule real_sqrt_unique) simp_all

theorem stop_zone_zero_witness:
  "\<exists>s'. calculate_final_waypoints braking_node 0 = Inr s'
      \<and> length (window s') = 200
      \<and> pose (window s' ! 2) = pose (wp_at 20 10) \<and> linear_x (window s' ! 2) = 0
      \<and> pose (window s' ! 3) = pose (wp_at 0 10) \<and> linear_x (window s' ! 3) = 0"
proof -
  obtain s' where r: "calculate_final_waypoints braking_node 0 = Inr s'"
    and p: "let S = traffic_waypoint braking_node;
             target_wp = nat (S - 0);
             m = nat (max (0 + LOOKAHEAD_WPS) (S + 1) - S)
         in 0 < m
          \<and> length (window s') = target_wp + m
          \<and> (\<forall>k<m. pose (window s' ! (target_wp + k))
                       = pose (route_cell (heap braking_node) [0, 1, 2] (S + int k))
                   \<and> linear_x (window s' ! (target_wp + k)) = 0)"
    using stop_zone_zero [OF braking_node_facts, of 0] by blast
  have len: "length (window s') = 200"
    using p by (simp add: braking_node_reads LOOKAHEAD_WPS_def Let_def)
  have all: "\<And>k. k < 198 \<Longrightarrow> pose (window s' ! (2 + k))
                       = pose (route_cell (heap braking_node) [0, 1, 2] (2 + int k))
                   \<and> linear_x (window s' ! (2 + k)) = 0"
    using p by (simp add: braking_node_reads LOOKAHEAD_WPS_def Let_def)
  have e2: "pose (window s' ! 2) = pose (wp_at 20 10) \<and> linear_x (window s' ! 2) = 0"
    using all [of 0] by (simp add: braking_node_reads del: One_nat_def)
  have e3: "pose (window s' ! 3) = pose (wp_at 0 10) \<and> linear_x (window s' ! 3) = 0"
    using all [of 1] by (simp add: braking_node_reads del: One_nat_def)
  show ?thesis using r len e2 e3 by blast
qed

theorem cruise_zone_speed_witness:
  "\<exists>s'. calculate_final_waypoints braking_node 0 = Inr s'
      \<and> pose (window s' ! 1) = pose (wp_at 10 10) \<and> linear_x (window s' ! 1) = 5"
proof -
  obtain s' where r: "calculate_final_waypoints braking_node 0 = Inr s'"
    and p: "\<forall>k<nat (traffic_waypoint braking_node - 0).
           let w = route_cell (heap braking_node) [0, 1, 2] (0 + int k);
               stop_entry = window s' ! nat (traffic_waypoint braking_node - 0);
               dist = dl (position (pose (window s' ! k))) (position (pose stop_entry));
               candidate = sqrt (2 * (5 / 2) * max 0 (dist - 5));
               candidate = (if candidate < 1 then 0 else candidate)
           in pose (window s' ! k) = pose w
            \<and> linear_x (window s' ! k) = min candidate (linear_x w)
            \<and> linear_x (window s' ! k) \<le> linear_x w"
    using cruise_zone_speed [OF braking_node_facts, of 0] by blast
  obtain s2 where r2: "calculate_final_waypoints braking_node 0 = Inr s2"
    and z: "\<forall>k<nat (max (0 + LOOKAHEAD_WPS) (traffic_waypoint braking_node + 1)
                      - traffic_waypoint braking_node).
              window s2 ! (nat (traffic_waypoint braking_node - 0) + k) =
              (route_cell (heap braking_node) [0, 1, 2] (traffic_waypoint braking_node + int k))
                \<lparr>linear_x := 0\<rparr>"
    using braking_result [OF braking_node_facts refl refl, of 0] by blast
  have same: "s2 = s'" using r r2 by simp
  have "window s' ! (2 + 0) = (wp_at 20 10)\<lparr>linear_x := 0\<rparr>"
    using z [rule_format, of 0] unfolding same
    by (simp add: braking_node_reads LOOKAHEAD_WPS_def del: One_nat_def)
  then have stop: "window s' ! 2 = wp_at 20 0"
    by (simp add: wp_at_fields)
  have one: "(1::nat) < nat (traffic_waypoint braking_node - 0)"
    by (simp add: braking_node_reads)
  have ps: "pose (window s' ! 1) = pose (wp_at 10 10)"
    using p [rule_format, OF one] by (simp add: Let_def braking_node_reads del: One_nat_def)
  have "linear_x (window s' ! 1) = 5"
    using p [rule_format, OF one]
    by (simp add: Let_def braking_node_reads ps stop dl_wp_at wp_at_fields sqrt_25
             del: One_nat_def)
  with r ps show ?thesis by blast
qed

subsection \<open>What the builder leaves alone\<close>

lemma copy_loop_frame:
  "copy_loop ws is h fw = Inr (h', fw') \<Longrightarrow>
     take (length h) h' = h \<and> (\<forall>a\<in>set fw'. a \<in> set fw \<or> length h \<le> a)"
proof (induction "is" arbitrary: h fw)
  case Nil
  then show ?case by simp
next
  case (Cons i "is")
  let ?c = "\<lparr>pose = pose (h ! (ws ! nat (i mod int (length ws)))),
             linear_x = linear_x (h ! (ws ! nat (i mod int (length ws))))\<rparr>"
  from Cons.prems have r: "copy_loop ws is (h @ [?c]) (fw @ [length h]) = Inr (h', fw')"
    by (simp add: Let_def split: if_splits)
  from Cons.IH [OF r] have t: "take (length (h @ [?c])) h' = h @ [?c]"
    and f: "\<forall>a\<in>set fw'. a \<in> set (fw @ [length h]) \<or> length (h @ [?c]) \<le> a"
    by blast+
  have "take (length h) h' = take (length h) (take (length (h @ [?c])) h')"
    by (simp add: min_def)
  also have "\<dots> = h" unfolding t by simp
  finally have "take (length h) h' = h" .
  moreover have "\<forall>a\<in>set fw'. a \<in> set fw \<or> length h \<le> a"
    using f by auto
  ultimately show ?case by blast
qed

lemma stop_loop_frame:
  "stop_loop ws is h fw = Inr (h', fw') \<Longrightarrow>
     take (length h) h' = h \<and> (\<forall>a\<in>set fw'. a \<in> set fw \<or> length h \<le> a)"
proof (induction "is" arbitrary: h fw)
  case Nil
  then show ?case by simp
next
  case (Cons i "is")
  let ?c = "\<lparr>pose = pose (h ! (ws ! nat (i mod int (length ws)))), linear_x = 0\<rparr>"
  from Cons.prems have r: "stop_loop ws is (h @ [?c]) (fw @ [length h]) = Inr (h', fw')"
    by (simp add: Let_def split: if_splits)
  from Cons.IH [OF r] have t: "take (length (h @ [?c])) h' = h @ [?c]"
    and f: "\<forall>a\<in>set fw'. a \<in> set (fw @ [length h]) \<or> length (h @ [?c]) \<le> a"
    by blast+
  have "take (length h) h' = take (length h) (take (length (h @ [?c])) h')"
    by (simp add: min_def)
  also have "\<dots> = h" unfolding t by simp
  finally have "take (length h) h' = h" .
  moreover have "\<forall>a\<in>set fw'. a \<in> set fw \<or> length h \<le> a"
    using f by auto
  ultimately show ?case by blast
qed

lemma py_get_member: "py_get xs i = Inr a \<Longrightarrow> a \<in> set xs"
  by (auto simp: py_get_def split: if_splits)

lemma take_length_le: "take n h' = h \<Longrightarrow> n = length h \<Longrightarrow> length h \<le> length h'"
  by (metis length_take min.cobounded1)

lemma calculate_frame:
  assumes "calculate_final_waypoints s t = Inr s'"
  shows "take (length (heap s)) (heap s') = heap s
       \<and> base_waypoints s' = base_waypoints s \<and> state s' = state s
       \<and> final_waypoints s' \<noteq> None"
proof -
  let ?L = "length (heap s)"
  consider (drive) "state s = 0" | (brake) "state s \<noteq> 0" "state s = 1"
    | (other) "state s \<noteq> 0" "state s \<noteq> 1" by blast
  then show ?thesis
  proof cases
    case drive
    with assms obtain ws h fw where
      c: "copy_loop ws [t..t + LOOKAHEAD_WPS - 1] (heap s) [] = Inr (h, fw)"
      and s': "s' = s\<lparr>final_waypoints := Some fw, heap := h\<rparr>"
      by (auto simp: calculate_final_waypoints_def split: sum.splits)
    from copy_loop_frame [OF c] show ?thesis using s' by simp
  next
    case brake
    with assms obtain ws h1 fw1 h2 fw2 lst h3 where
      c1: "copy_loop ws [t..traffic_waypoint s - 1] (heap s) [] = Inr (h1, fw1)"
      and c2: "stop_loop ws [traffic_waypoint s..
                 max (t + LOOKAHEAD_WPS) (traffic_waypoint s + 1) - 1] h1 fw1 = Inr (h2, fw2)"
      and g: "py_get fw2 (int (length fw1)) = Inr lst"
      and sm: "smooth_loop (breaking_acceleration s) lst (rev (take (length fw1) fw2))
                 (h2[lst := (h2 ! lst)\<lparr>linear_x := 0\<rparr>]) = Inr h3"
      and s': "s' = s\<lparr>final_waypoints := Some fw2, heap := h3\<rparr>"
      by (auto simp: calculate_final_waypoints_def Let_def split: sum.splits)
    from copy_loop_frame [OF c1] have t1: "take ?L h1 = heap s"
      and f1: "\<forall>a\<in>set fw1. ?L \<le> a" by auto
    from stop_loop_frame [OF c2] have t2: "take (length h1) h2 = h1"
      and f2: "\<forall>a\<in>set fw2. a \<in> set fw1 \<or> length h1 \<le> a" by auto
    have l1: "?L \<le> length h1" using t1 by (rule take_length_le) simp
    have l2: "length h1 \<le> length h2" using t2 by (rule take_length_le) simp
    have f: "\<forall>a\<in>set fw2. ?L \<le> a" using f1 f2 l1 by fastforce
    have "take ?L h2 = take ?L (take (length h1) h2)"
      using l1 by (simp add: min_def)
    then have th2: "take ?L h2 = heap s" using t1 t2 by simp
    have lst: "?L \<le> lst" using py_get_member [OF g] f by blast
    from smooth_loop_frame [OF sm]
    have l3: "length h3 = length h2"
      and c3: "\<forall>x. x \<notin> set (rev (take (length fw1) fw2))
                 \<longrightarrow> h3 ! x = (h2[lst := (h2 ! lst)\<lparr>linear_x := 0\<rparr>]) ! x"
      by simp_all
    have "h3 ! x = h2 ! x" if "x < ?L" for x
    proof -
      have "x \<notin> set (take (length fw1) fw2)"
        using f that by (meson in_set_takeD not_le)
      then show ?thesis using c3 lst that by simp
    qed
    then have "take ?L h3 = take ?L h2"
      using l3 l1 l2 by (intro nth_take_lemma) auto
    then show ?thesis using th2 s' by simp
  next
    case other
    with assms have "s' = s\<lparr>final_waypoints := Some []\<rparr>"
      by (simp add: calculate_final_waypoints_def)
    then show ?thesis by simp
  qed
qed

lemma resolve_frame:
  "resolve_traffic_lights s t = Inr s1 \<Longrightarrow>
     heap s1 = heap s \<and> base_waypoints s1 = base_waypoints s
     \<and> traffic_waypoint s1 = traffic_waypoint s \<and> current_pose s1 = current_pose s"
  by (auto simp: resolve_traffic_lights_def split: if_splits sum.splits)

subsection \<open>The tick\<close>

lemma update_idle:
  "current_pose s = None \<or> base_waypoints s = None \<Longrightarrow> update yaw s = Inr (s, None)"
  by (auto simp: update_def)

lemma get_next_waypoint_total:
  assumes "current_pose s = Some cp" "base_waypoints s = Some ws" "ws \<noteq> []"
  shows "\<exists>t. get_next_waypoint yaw s = Inr t \<and> 0 \<le> t"
proof -
  obtain c where c: "get_closest_waypoint s = Inr c"
    and cl: "is_closest (heap s) (position cp) ws c"
    using get_closest_waypoint_closest [OF assms] by blast
  then have "c < length ws" by (simp add: is_closest_def)
  then have g: "py_get ws (int c) = Inr (ws ! c)" by (simp add: py_get_def)
  show ?thesis
    using c g assms(1,2) by (simp add: get_next_waypoint_def attr_def Let_def)
qed

lemma resolve_total:
  assumes "signal_ok s" "acc_ok s" "0 \<le> t"
  shows "\<exists>s1. resolve_traffic_lights s t = Inr s1 \<and> acc_ok s1"
proof (cases "state s = 0 \<and> traffic_waypoint s \<noteq> - 1")
  case True
  with assms(1) obtain ws v where ws: "base_waypoints s = Some ws"
    and tw: "traffic_waypoint s < int (length ws)"
    and v: "current_velocity s = Some v" and l: "breaking_acceleration_limit s \<noteq> 0"
    by (auto simp: signal_ok_def split: option.splits)
  let ?D = "arc_distance (heap s) ws t (traffic_waypoint s)"
  have d: "distance (heap s) ws t (traffic_waypoint s) = Inr ?D"
    using assms(3) tw by (rule distance_arc)
  obtain M where m: "decel s (breaking_acceleration_limit s) = Inr M"
    using decel_defined [of s "breaking_acceleration_limit s"] v l by auto
  then have M0: "0 \<le> M" by (rule decel_nonneg)
  show ?thesis
  proof (cases "?D > M")
    case gt: True
    then have "?D \<noteq> 0" using M0 by linarith
    then obtain a where a: "decel s ?D = Inr a"
      using decel_defined [of s ?D] v by auto
    then have "0 \<le> a" by (rule decel_nonneg)
    then show ?thesis
      using True ws d m gt a
      by (simp add: resolve_traffic_lights_def attr_def acc_ok_def)
  next
    case False
    then show ?thesis
      using True ws d m
      by (simp add: resolve_traffic_lights_def attr_def acc_ok_def)
  qed
next
  case False
  then show ?thesis
    using assms(2) by (auto simp: resolve_traffic_lights_def acc_ok_def)
qed

lemma calculate_total:
  assumes "base_waypoints s = Some ws" "ws \<noteq> []" "heap_ok (heap s) ws" "acc_ok s"
  shows "\<exists>s2. calculate_final_waypoints s t = Inr s2"
proof -
  consider (drive) "state s = 0" | (brake) "state s = 1"
    | (other) "state s \<noteq> 0" "state s \<noteq> 1" by blast
  then show ?thesis
  proof cases
    case drive
    then show ?thesis using driving_result [OF drive assms(1,2,3)] by simp
  next
    case brake
    with assms(4) obtain a where "breaking_acceleration s = Some a" "0 \<le> a"
      by (auto simp: acc_ok_def split: option.splits)
    from braking_result [OF brake assms(1,2,3) this refl refl, of t]
    show ?thesis by blast
  next
    case other
    then show ?thesis by (simp add: calculate_final_waypoints_def)
  qed
qed

lemma tick_publishes:
  assumes "current_pose s = Some cp" "base_waypoints s = Some ws" "ws \<noteq> []"
    and "heap_ok (heap s) ws" "acc_ok s" "signal_ok s"
  shows "\<exists>s' msg. update yaw s = Inr (s', Some msg) \<and> length msg \<le> nat LOOKAHEAD_WPS"
proof -
  obtain t where t: "get_next_waypoint yaw s = Inr t" "0 \<le> t"
    using get_next_waypoint_total [OF assms(1,2,3)] by blast
  obtain s1 where s1: "resolve_traffic_lights s t = Inr s1" "acc_ok s1"
    using resolve_total [OF assms(6,5) t(2)] by blast
  from resolve_frame [OF s1(1)] have f1: "heap s1 = heap s" "base_waypoints s1 = Some ws"
    using assms(2) by simp_all
  obtain s2 where s2: "calculate_final_waypoints s1 t = Inr s2"
    using calculate_total [of s1 ws t] f1 assms(3,4) s1(2) by auto
  from calculate_frame [OF s2] obtain fw where fw: "final_waypoints s2 = Some fw" by auto
  show ?thesis
    using assms(1,2) t(1) s1(1) s2 fw by (simp add: update_def)
qed

text \<open>What a tick publishes is the slice of the window that the builder left.\<close>

lemma update_message:
  assumes "update yaw s = Inr (s', Some msg)"
  shows "msg = take (nat LOOKAHEAD_WPS) (window s')"
proof -
  from assms obtain fw where "final_waypoints s' = Some fw"
    and "msg = map (\<lambda>a. heap s' ! a) (take (nat LOOKAHEAD_WPS) fw)"
    by (auto simp: update_def split: if_splits sum.splits option.splits)
  then show ?thesis by (simp add: window_def take_map)
qed

lemma tick_stop_signal_without_speed:
  assumes "current_pose s = Some cp" "base_waypoints s = Some ws" "ws \<noteq> []"
    and "state s = 0" "traffic_waypoint s \<noteq> - 1" "traffic_waypoint s < int (length ws)"
    and "current_velocity s = None"
  shows "update yaw s = Inl AttributeError"
proof -
  obtain t where t: "get_next_waypoint yaw s = Inr t" "0 \<le> t"
    using get_next_waypoint_total [OF assms(1,2,3)] by blast
  have d: "distance (heap s) ws t (traffic_waypoint s)
      = Inr (arc_distance (heap s) ws t (traffic_waypoint s))"
    using t(2) assms(6) by (rule distance_arc)
  have "resolve_traffic_lights s t = Inl AttributeError"
    using assms(2,4,5,7) d by (simp add: resolve_traffic_lights_def attr_def decel_def)
  then show ?thesis
    using assms(1,2) t(1) by (simp add: update_def)
qed

lemma update_frame:
  assumes "update yaw s = Inr (s', out)"
  shows "take (length (heap s)) (heap s') = heap s \<and> base_waypoints s' = base_waypoints s"
proof (cases "current_pose s \<noteq> None \<and> base_waypoints s \<noteq> None")
  case False
  then show ?thesis using assms by (auto simp: update_def)
next
  case True
  with assms obtain t s1 where s1: "resolve_traffic_lights s t = Inr s1"
    and s2: "calculate_final_waypoints s1 t = Inr s'"
    by (auto simp: update_def split: sum.splits option.splits)
  from resolve_frame [OF s1] calculate_frame [OF s2] show ?thesis by simp
qed

lemma no_speed_node_facts:
  "current_pose no_speed_node = Some (pose (wp_at 0 0))"
  "base_waypoints no_speed_node = Some [0, 1, 2]" "[0, 1, 2::nat] \<noteq> []"
  "heap_ok (heap no_speed_node) [0, 1, 2]" "acc_ok no_speed_node" "signal_ok no_speed_node"
  by (simp_all add: no_speed_node_def demo_node_def heap_ok_def acc_ok_def signal_ok_def)

text \<open>
  C7, as stated, fails: the guard of the tick looks at the pose and the route only.
  On \<open>no_speed_node\<close> no speed has been received, and the tick still runs the pipeline
  and publishes.
\<close>

theorem tick_runs_without_speed:
  "current_velocity no_speed_node = None
   \<and> update flat_yaw no_speed_node \<noteq> Inr (no_speed_node, None)
   \<and> \<not> isl (update flat_yaw no_speed_node)
   \<and> snd (projr (update flat_yaw no_speed_node)) \<noteq> None"
proof -
  obtain s' msg where "update flat_yaw no_speed_node = Inr (s', Some msg)"
    using tick_publishes [OF no_speed_node_facts, of flat_yaw] by blast
  moreover have "current_velocity no_speed_node = None"
    by (simp add: no_speed_node_def)
  ultimately show ?thesis by simp
qed

text \<open>
  C7, amended. While the pose or the route snapshot has not been received the tick
  returns the node unchanged and publishes nothing, without an error; the speed is not
  part of the guard. Once pose and route are there the pipeline runs, and it publishes
  at most \<open>LOOKAHEAD_WPS\<close> entries whenever the route is not empty, its references are
  allocated, and \<open>acc_ok\<close> and \<open>signal_ok\<close> hold.
\<close>

theorem tick_guard:
  "(current_pose s = None \<or> base_waypoints s = None \<longrightarrow> update yaw s = Inr (s, None))
   \<and> (current_pose s \<noteq> None \<and> base_waypoints s = Some ws \<and> ws \<noteq> []
        \<and> heap_ok (heap s) ws \<and> acc_ok s \<and> signal_ok s
      \<longrightarrow> (\<exists>s' msg. update yaw s = Inr (s', Some msg) \<and> length msg \<le> nat LOOKAHEAD_WPS))"
  using update_idle [of s yaw] tick_publishes [of s _ ws yaw] by auto

lemma demo_node_facts:
  "current_pose demo_node = Some (pose (wp_at 0 0))"
  "base_waypoints demo_node = Some [0, 1, 2]"
  "acc_ok demo_node" "signal_ok demo_node"
  by (simp_all add: demo_node_def acc_ok_def signal_ok_def)

theorem tick_guard_witness:
  "update flat_yaw (demo_node\<lparr>current_pose := None\<rparr>) = Inr (demo_node\<lparr>current_pose := None\<rparr>, None)
   \<and> (\<exists>s' msg. update flat_yaw demo_node = Inr (s', Some msg) \<and> length msg \<le> 200)"
  using tick_guard [of "demo_node\<lparr>current_pose := None\<rparr>" flat_yaw "[]"]
        tick_guard [of demo_node flat_yaw "[0, 1, 2]"] demo_node_facts demo_heap_ok
  by (simp add: LOOKAHEAD_WPS_def)


subsection \<open>The empty route\<close>

lemma copy_loop_empty_route: "is \<noteq> [] \<Longrightarrow> copy_loop [] is h fw = Inl ZeroDivisionError"
  by (cases "is") simp_all

lemma stop_loop_empty_route: "is \<noteq> [] \<Longrightarrow> stop_loop [] is h fw = Inl ZeroDivisionError"
  by (cases "is") simp_all

lemma calculate_empty_route:
  assumes "base_waypoints s = Some []" "state s = 0 \<or> state s = 1"
  shows "calculate_final_waypoints s t = Inl ZeroDivisionError"
proof (cases "state s = 0")
  case True
  have "[t..t + LOOKAHEAD_WPS - 1] \<noteq> []" by (simp add: LOOKAHEAD_WPS_def)
  then show ?thesis
    using True assms(1)
    by (simp add: calculate_final_waypoints_def attr_def copy_loop_empty_route)
next
  case False
  with assms(2) have b: "state s = 1" by simp
  let ?stop = "[traffic_waypoint s..max (t + LOOKAHEAD_WPS) (traffic_waypoint s + 1) - 1]"
  have ne: "?stop \<noteq> []" by simp
  show ?thesis
  proof (cases "[t..traffic_waypoint s - 1] = []")
    case True
    then have "copy_loop [] [t..traffic_waypoint s - 1] (heap s) [] = Inr (heap s, [])"
      by simp
    then show ?thesis
      using b assms(1) stop_loop_empty_route [OF ne]
      by (simp add: calculate_final_waypoints_def attr_def Let_def)
  next
    case False
    then show ?thesis
      using b assms(1)
      by (simp add: calculate_final_waypoints_def attr_def copy_loop_empty_route)
  qed
qed

lemma locate_empty_route:
  assumes "base_waypoints s = Some []"
  shows "get_closest_waypoint s = Inr 0"
    and "current_pose s \<noteq> None \<Longrightarrow> get_next_waypoint yaw s = Inl IndexError"
  using assms by (auto simp: get_closest_waypoint_def get_next_waypoint_def attr_def py_get_def)

text \<open>
  C8, as stated, fails: nothing guards an empty route. On \<open>empty_route_node\<close> the
  closest-waypoint scan returns index \<open>0\<close> as if nothing were wrong, and the builder
  evaluates \<^verbatim>\<open>i % 0\<close>.
\<close>

theorem empty_route_not_guarded:
  "get_closest_waypoint empty_route_node = Inr 0
   \<and> calculate_final_waypoints empty_route_node 0 = Inl ZeroDivisionError"
  using locate_empty_route(1) [of empty_route_node]
        calculate_empty_route [of empty_route_node 0]
  by (simp add: empty_route_node_def demo_node_def)

text \<open>
  C8, amended. For an empty route the scan returns index \<open>0\<close> without an error; a tick
  with a pose then aborts with the \<^verbatim>\<open>IndexError\<close> of reading \<^verbatim>\<open>waypoints[0]\<close> in the
  locator, before the resolver and the builder run; and the builder, called in the
  Driving or the Braking state, raises \<^verbatim>\<open>ZeroDivisionError\<close>.
\<close>

theorem empty_route_unguarded:
  assumes "base_waypoints s = Some []"
  shows "get_closest_waypoint s = Inr 0
       \<and> (current_pose s \<noteq> None \<longrightarrow> update yaw s = Inl IndexError)
       \<and> (state s = 0 \<or> state s = 1 \<longrightarrow> calculate_final_waypoints s t = Inl ZeroDivisionError)"
proof -
  have c: "get_closest_waypoint s = Inr 0"
    using assms by (rule locate_empty_route(1))
  have n: "current_pose s \<noteq> None \<longrightarrow> update yaw s = Inl IndexError"
    using locate_empty_route(2) [OF assms, of yaw] assms by (simp add: update_def)
  have b: "state s = 0 \<or> state s = 1 \<longrightarrow> calculate_final_waypoints s t = Inl ZeroDivisionError"
    using calculate_empty_route [OF assms, of t] by blast
  show ?thesis using c n b by blast
qed

theorem empty_route_unguarded_witness:
  "get_closest_waypoint empty_route_node = Inr 0
   \<and> update flat_yaw empty_route_node = Inl IndexError
   \<and> calculate_final_waypoints empty_route_node 5 = Inl ZeroDivisionError"
  using empty_route_unguarded [of empty_route_node flat_yaw 5]
  by (simp add: empty_route_node_def demo_node_def)


subsection \<open>The route store\<close>

text \<open>
  C10. Neither the builder nor a whole tick, when it returns, changes the route store:
  the list of route references is the same and every route waypoint's cell (pose and
  nominal speed) is what it was; speeds are written to cells allocated by the builder
  only.
\<close>

theorem route_store_unchanged:
  assumes "base_waypoints s = Some ws" "heap_ok (heap s) ws"
  shows "(\<forall>s'. calculate_final_waypoints s t = Inr s' \<longrightarrow>
            base_waypoints s' = Some ws \<and> (\<forall>a\<in>set ws. heap s' ! a = heap s ! a))
       \<and> (\<forall>s' out. update yaw s = Inr (s', out) \<longrightarrow>
            base_waypoints s' = Some ws \<and> (\<forall>a\<in>set ws. heap s' ! a = heap s ! a))"
proof -
  have keep: "\<forall>a\<in>set ws. h' ! a = heap s ! a" if "take (length (heap s)) h' = heap s" for h'
  proof
    fix a assume "a \<in> set ws"
    then have lt: "a < length (heap s)" using assms(2) by (simp add: heap_ok_def)
    have "heap s ! a = take (length (heap s)) h' ! a" using that by simp
    also have "\<dots> = h' ! a" using lt by simp
    finally show "h' ! a = heap s ! a" by simp
  qed
  have c: "base_waypoints s' = Some ws \<and> (\<forall>a\<in>set ws. heap s' ! a = heap s ! a)"
    if "calculate_final_waypoints s t = Inr s'" for s'
    using calculate_frame [OF that] keep [of "heap s'"] assms(1) by simp
  have u: "base_waypoints s' = Some ws \<and> (\<forall>a\<in>set ws. heap s' ! a = heap s ! a)"
    if "update yaw s = Inr (s', out)" for s' out
    using update_frame [OF that] keep [of "heap s'"] assms(1) by simp
  show ?thesis using c u by blast
qed

theorem route_store_unchanged_witness:
  "(\<exists>s'. calculate_final_waypoints braking_node 0 = Inr s'
        \<and> heap s' ! 0 = wp_at 0 10 \<and> heap s' ! 1 = wp_at 10 10 \<and> heap s' ! 2 = wp_at 20 10)
   \<and> (\<exists>s' msg. update flat_yaw demo_node = Inr (s', Some msg)
        \<and> heap s' ! 0 = wp_at 0 10 \<and> heap s' ! 1 = wp_at 10 10 \<and> heap s' ! 2 = wp_at 20 10)"
proof -
  obtain s1 where c: "calculate_final_waypoints braking_node 0 = Inr s1"
    using braking_result [OF braking_node_facts refl refl, of 0] by blast
  obtain s2 msg where u: "update flat_yaw demo_node = Inr (s2, Some msg)"
    using tick_publishes [OF demo_node_facts(1,2) braking_node_facts(3) demo_heap_ok
                             demo_node_facts(3,4), of flat_yaw] by blast
  have a: "\<forall>a\<in>set [0, 1, 2]. heap s1 ! a = heap braking_node ! a"
    using route_store_unchanged [OF braking_node_facts(2,4), of 0 flat_yaw] c by blast
  have b: "\<forall>a\<in>set [0, 1, 2]. heap s2 ! a = heap demo_node ! a"
    using route_store_unchanged [OF demo_node_facts(2) demo_heap_ok, of 0 flat_yaw] u by blast
  have "heap s1 ! 0 = wp_at 0 10 \<and> heap s1 ! 1 = wp_at 10 10 \<and> heap s1 ! 2 = wp_at 20 10"
    using a by (simp add: braking_node_def demo_node_def)
  moreover have "heap s2 ! 0 = wp_at 0 10 \<and> heap s2 ! 1 = wp_at 10 10 \<and> heap s2 ! 2 = wp_at 20 10"
    using b by (simp add: demo_node_def)
  ultimately show ?thesis using c u by blast
qed


end
